theory Spec2Isabelle
  imports Complex_Main "HOL-Library.Word" "HOL-Library.AList"
begin

section \<open>Identifiers and configuration\<close>

text \<open>
  \<^verbatim>\<open>Id\<close> is an unsigned integer typedef of \<^verbatim>\<open>osmscout/Types.h\<close>; the sources
  at hand do not fix its width, so ids are words of an arbitrary length \<open>'a\<close>. The route
  generator only compares ids and tests them against 0; \<^verbatim>\<open>Way::Write\<close> and
  \<^verbatim>\<open>Way::Read\<close> subtract and add them, which wraps. \<^verbatim>\<open>TypeId\<close> values are only
  compared, they are natural numbers here.
\<close>

type_synonym TypeId = nat

text \<open>
  The parts of \<^verbatim>\<open>TypeConfig\<close> the generator asks for: the constant \<^verbatim>\<open>typeIgnore\<close>,
  \<^verbatim>\<open>GetRelationTypeId(name)\<close>, and per type \<^verbatim>\<open>GetTypeInfo(t).GetIgnore()\<close> and
  \<^verbatim>\<open>GetTypeInfo(t).CanBeRoute()\<close>.
\<close>

record TypeConfig =
  typeIgnore :: TypeId
  GetRelationTypeId :: "string \<Rightarrow> TypeId"
  GetIgnore :: "TypeId \<Rightarrow> bool"
  CanBeRoute :: "TypeId \<Rightarrow> bool"

section \<open>Data files read record by record\<close>

text \<open>
  \<^verbatim>\<open>rawrels.dat\<close> and \<^verbatim>\<open>ways.dat\<close> are read in the same way: open the file, read a
  \<^verbatim>\<open>uint32_t\<close> count, then call \<^verbatim>\<open>Read\<close> that many times, and close. Each of
  these steps can fail and makes the reader return \<^verbatim>\<open>false\<close>. A file is given by
  the outcome of each step: \<open>dopens\<close>, the header \<open>dcount\<close> (\<open>None\<close> when reading it
  fails), the outcomes of the successive \<^verbatim>\<open>Read\<close> calls (\<open>None\<close> is a failed read;
  past the end of the list every read fails), and \<open>dcloses\<close>.
\<close>

record 'r DataFile =
  dopens :: bool
  dcount :: "32 word option"
  drecords :: "'r option list"
  dcloses :: bool

text \<open>
  The loop \<^verbatim>\<open>for (uint32_t r=1; r<=count; r++)\<close> with its early \<^verbatim>\<open>return false\<close>
  on a failed read and its \<^verbatim>\<open>continue\<close>s: \<open>step\<close> is the body after the read.
\<close>

fun scanRecords :: "nat \<Rightarrow> 'r option list \<Rightarrow> ('r \<Rightarrow> 's \<Rightarrow> 's) \<Rightarrow> 's \<Rightarrow> 's option" where
  "scanRecords 0 rs step s = Some s"
| "scanRecords (Suc n) [] step s = None"
| "scanRecords (Suc n) (None # rs) step s = None"
| "scanRecords (Suc n) (Some r # rs) step s = scanRecords n rs step (step r s)"

text \<open>
  With a header of \<open>2^32 - 1\<close> the loop condition \<^verbatim>\<open>r<=count\<close> never fails (\<open>r\<close>
  wraps to 0), so the loop only ends at the first failed read: the reader returns
  \<^verbatim>\<open>false\<close>.
\<close>

definition scanFile :: "'r DataFile \<Rightarrow> ('r \<Rightarrow> 's \<Rightarrow> 's) \<Rightarrow> 's \<Rightarrow> 's option" where
  "scanFile f step s =
     (if \<not> dopens f then None
      else case dcount f of
        None \<Rightarrow> None
      | Some c \<Rightarrow>
          if c = - 1 then None
          else (case scanRecords (unat c) (drecords f) step s of
                  None \<Rightarrow> None
                | Some s' \<Rightarrow> if dcloses f then Some s' else None))"

section \<open>Turn restrictions\<close>

datatype RestrictionType = allow | forbit

record (overloaded) 'a Restriction =
  rtype :: RestrictionType
  rfrom :: "'a word"
  rto :: "'a word"

subsection \<open>CanTurn\<close>

text \<open>The \<^verbatim>\<open>for\<close> loop of \<^verbatim>\<open>CanTurn\<close>, with \<^verbatim>\<open>defaultReturn\<close> as accumulator.\<close>

fun CanTurn_loop :: "'a Restriction list \<Rightarrow> 'a word \<Rightarrow> 'a word \<Rightarrow> bool \<Rightarrow> bool" where
  "CanTurn_loop [] f t defaultReturn = defaultReturn"
| "CanTurn_loop (r # rs) f t defaultReturn =
     (if rfrom r = f then
        (case rtype r of
           allow \<Rightarrow> if rto r = t then True else CanTurn_loop rs f t False
         | forbit \<Rightarrow> if rto r = t then False else CanTurn_loop rs f t True)
      else CanTurn_loop rs f t defaultReturn)"

definition CanTurn :: "'a Restriction list \<Rightarrow> 'a word \<Rightarrow> 'a word \<Rightarrow> bool" where
  "CanTurn restrictions f t =
     (if restrictions = [] then True else CanTurn_loop restrictions f t True)"

subsection \<open>ReadRestrictionRelations\<close>

datatype MemberType = memberNode | memberWay | memberRelation

record (overloaded) 'a Member =
  mtype :: MemberType
  mid :: "'a word"
  mrole :: string

record (overloaded) 'a RawRelation =
  reltype :: TypeId
  members :: "'a Member list"

definition posRestrictions :: "TypeConfig \<Rightarrow> TypeId set" where
  "posRestrictions tc =
     set (filter (\<lambda>t. t \<noteq> typeIgnore tc)
       (map (GetRelationTypeId tc)
         [''restriction_only_right_turn'', ''restriction_only_left_turn'',
          ''restriction_only_straight_on'']))"

definition negRestrictions :: "TypeConfig \<Rightarrow> TypeId set" where
  "negRestrictions tc =
     set (filter (\<lambda>t. t \<noteq> typeIgnore tc)
       (map (GetRelationTypeId tc)
         [''restriction_no_right_turn'', ''restriction_no_left_turn'',
          ''restriction_no_u_turn'', ''restriction_no_straight_on'']))"

text \<open>
  The loop over \<^verbatim>\<open>relation.members\<close>; the state is
  \<open>(restriction.from, via, restriction.to)\<close>.
\<close>

fun scanMembers ::
  "'a Member list \<Rightarrow> 'a word \<times> 'a word \<times> 'a word \<Rightarrow> 'a word \<times> 'a word \<times> 'a word" where
  "scanMembers [] s = s"
| "scanMembers (m # ms) (f, v, t) =
     scanMembers ms
       (if mtype m = memberWay \<and> mrole m = ''from'' then (mid m, v, t)
        else if mtype m = memberNode \<and> mrole m = ''via'' then (f, mid m, t)
        else if mtype m = memberWay \<and> mrole m = ''to'' then (f, v, mid m)
        else (f, v, t))"

text \<open>\<^verbatim>\<open>restrictions[via].push_back(restriction)\<close> on a \<^verbatim>\<open>std::map\<close> of vectors.\<close>

definition push_back_at :: "('k \<rightharpoonup> 'v list) \<Rightarrow> 'k \<Rightarrow> 'v \<Rightarrow> ('k \<rightharpoonup> 'v list)" where
  "push_back_at m k v = m(k \<mapsto> (case m k of None \<Rightarrow> [] | Some vs \<Rightarrow> vs) @ [v])"

text \<open>
  The body of the relation loop after a successful read. \<^verbatim>\<open>via\<close> starts at 0. The
  declaration \<^verbatim>\<open>Restriction restriction;\<close> is in \<^verbatim>\<open>GenRouteDat.h\<close>, which is not
  among the sources: the values \<open>from0\<close> and \<open>to0\<close> that \<^verbatim>\<open>restriction.from\<close> and
  \<^verbatim>\<open>restriction.to\<close> hold before the member loop are parameters. The third branch of
  the type test (\<^verbatim>\<open>continue\<close>) cannot be reached under the outer condition.
\<close>

definition handleRelation ::
  "TypeConfig \<Rightarrow> 'a::len word \<Rightarrow> 'a word \<Rightarrow> 'a RawRelation \<Rightarrow>
   ('a word \<rightharpoonup> 'a Restriction list) \<Rightarrow> ('a word \<rightharpoonup> 'a Restriction list)" where
  "handleRelation tc from0 to0 relation restrictions =
     (if reltype relation \<in> posRestrictions tc \<or> reltype relation \<in> negRestrictions tc then
        (case scanMembers (members relation) (from0, 0, to0) of
           (f, via, t) \<Rightarrow>
             if f \<noteq> 0 \<and> via \<noteq> 0 \<and> t \<noteq> 0 then
               push_back_at restrictions via
                 \<lparr>rtype = (if reltype relation \<in> posRestrictions tc then allow else forbit),
                  rfrom = f, rto = t\<rparr>
             else restrictions)
      else restrictions)"


text \<open>
  What the member loop leaves in a slot, said directly: the id of the last member of the
  given kind and role, or the slot's initial value \<open>d\<close> when there is none.
\<close>

definition lastMember :: "'a Member list \<Rightarrow> MemberType \<Rightarrow> string \<Rightarrow> 'a word \<Rightarrow> 'a word" where
  "lastMember ms ty r d =
     (case filter (\<lambda>m. mtype m = ty \<and> mrole m = r) ms of
        [] \<Rightarrow> d
      | x # xs \<Rightarrow> mid (last (x # xs)))"

section \<open>Ways, junctions and the node-way map\<close>

text \<open>
  \<^verbatim>\<open>GenRouteDat.cpp\<close> is written against a \<^verbatim>\<open>Way\<close> whose \<^verbatim>\<open>nodes\<close> are points that
  carry their id (\<^verbatim>\<open>way->nodes[i].GetId()\<close>). The generator reads of a way its id,
  type, maximum speed, the area, oneway and access flags, and the node ids. The
  coordinates of the points only feed \<^verbatim>\<open>GetSphericalDistance\<close> and the \<^verbatim>\<open>lat\<close>,
  \<^verbatim>\<open>lon\<close> and \<^verbatim>\<open>distance\<close> fields of a path, all floating point; they are left out,
  so \<open>nodes\<close> is the list of node ids.
\<close>

record (overloaded) 'a Way =
  wid :: "'a word"
  wtype :: TypeId
  maxSpeed :: "8 word"
  isArea :: bool
  isOneway :: bool
  hasAccess :: bool
  nodes :: "'a word list"

text \<open>The three \<^verbatim>\<open>continue\<close> tests at the head of both way loops.\<close>

definition skipsWay :: "TypeConfig \<Rightarrow> 'a Way \<Rightarrow> bool" where
  "skipsWay tc way =
     (wtype way = typeIgnore tc \<or> GetIgnore tc (wtype way) \<or> \<not> CanBeRoute tc (wtype way))"

subsection \<open>ReadJunctions\<close>

text \<open>
  \<^verbatim>\<open>nodeWayCountMap\<close> is a \<^verbatim>\<open>std::map<Id,size_t>\<close>, here an association list with
  one entry per key; the counter is a natural number (a \<^verbatim>\<open>size_t\<close> cannot overflow
  by counting the nodes of a file).
\<close>

definition countNode :: "('a word \<times> nat) list \<Rightarrow> 'a word \<Rightarrow> ('a word \<times> nat) list" where
  "countNode m n =
     (case map_of m n of
        Some c \<Rightarrow> AList.update n (c + 1) m
      | None \<Rightarrow> AList.update n 1 m)"

definition countWay :: "TypeConfig \<Rightarrow> 'a Way \<Rightarrow> ('a word \<times> nat) list \<Rightarrow> ('a word \<times> nat) list" where
  "countWay tc way m = (if skipsWay tc way then m else fold (\<lambda>n m. countNode m n) (nodes way) m)"

text \<open>The final loop: every entry with a count of at least 2 goes into \<^verbatim>\<open>junctions\<close>.\<close>

definition collectJunctions :: "('a word \<times> nat) list \<Rightarrow> 'a word set \<Rightarrow> 'a word set" where
  "collectJunctions m junctions =
     fold (\<lambda>(k, c) js. if 2 \<le> c then insert k js else js) m junctions"

definition ReadJunctions ::
  "TypeConfig \<Rightarrow> 'a Way DataFile \<Rightarrow> 'a word set \<Rightarrow> 'a word set option" where
  "ReadJunctions tc waysdat junctions =
     (case scanFile waysdat (countWay tc) [] of
        None \<Rightarrow> None
      | Some m \<Rightarrow> Some (collectJunctions m junctions))"

text \<open>
  The specification's count: the appearances of a node id over all routable ways, every
  position of every way counting once.
\<close>

definition routable :: "TypeConfig \<Rightarrow> 'a Way \<Rightarrow> bool" where
  "routable tc way =
     (wtype way \<noteq> typeIgnore tc \<and> \<not> GetIgnore tc (wtype way) \<and> CanBeRoute tc (wtype way))"

definition appearances :: "TypeConfig \<Rightarrow> 'a Way list \<Rightarrow> 'a word \<Rightarrow> nat" where
  "appearances tc ws n = sum_list (map (\<lambda>w. count_list (nodes w) n) (filter (routable tc) ws))"

subsection \<open>ReadWayEndpoints\<close>




section \<open>Random access to ways\<close>

subsection \<open>The scanner and the index\<close>

text \<open>
  Modelled from the spec: \<^verbatim>\<open>FileScanner\<close> and \<^verbatim>\<open>NumericIndex\<close> are not among the
  sources. The specification calls them a positioned scanner over \<^verbatim>\<open>ways.dat\<close> and an
  index that maps way ids to file offsets, and names the failures: a missing id, an
  out-of-range offset, a deserialization error. A scanner is the data it reads
  (\<open>sdata off\<close> is the way that is stored at offset \<open>off\<close>, with the offset just behind
  it), the size of the file, the current position and the error flag; \<open>scloses\<close> tells
  whether closing it succeeds.
\<close>

record (overloaded) 'a FileScanner =
  sdata :: "nat \<Rightarrow> ('a Way \<times> nat) option"
  ssize :: nat
  spos :: nat
  sHasError :: bool
  scloses :: bool

text \<open>Modelled from the spec: \<^verbatim>\<open>FileScanner::GetPos\<close> fails on a scanner in error.\<close>

definition GetPos :: "'a FileScanner \<Rightarrow> nat option" where
  "GetPos sc = (if sHasError sc then None else Some (spos sc))"

text \<open>
  Modelled from the spec: \<^verbatim>\<open>FileScanner::SetPos\<close> fails on a scanner in error and on
  an offset behind the end of the file; a failed call leaves the position alone.
\<close>

definition SetPos :: "'a FileScanner \<Rightarrow> nat \<Rightarrow> bool \<times> 'a FileScanner" where
  "SetPos sc p =
     (if sHasError sc \<or> ssize sc < p then (False, sc) else (True, sc\<lparr>spos := p\<rparr>))"

text \<open>
  Modelled from the spec: \<^verbatim>\<open>Way::Read\<close> on the scanner, for the \<^verbatim>\<open>Way\<close> of the route
  generator. It yields the way stored at the current position and moves behind it; where
  no way can be decoded the scanner goes into error.
\<close>

definition scanWay :: "'a FileScanner \<Rightarrow> 'a FileScanner \<times> 'a Way option" where
  "scanWay sc =
     (if sHasError sc then (sc, None)
      else case sdata sc (spos sc) of
        None \<Rightarrow> (sc\<lparr>sHasError := True\<rparr>, None)
      | Some (w, nxt) \<Rightarrow> (sc\<lparr>spos := nxt\<rparr>, Some w))"

text \<open>
  Modelled from the spec: \<^verbatim>\<open>NumericIndex::GetOffsets\<close> takes the set of ids (here the
  ascending list of its elements) to the offsets of their ways, or fails;
  \<open>icloses\<close> is the outcome of \<^verbatim>\<open>Close\<close>.
\<close>

record (overloaded) 'a NumericIndex =
  GetOffsets :: "'a word list \<Rightarrow> nat list option"
  icloses :: bool

subsection \<open>LoadWays\<close>

text \<open>
  The loop over the offsets. The result is the return value so far (\<open>False\<close> is an early
  \<^verbatim>\<open>return false\<close>), the scanner and the list \<^verbatim>\<open>ways\<close>. \<^verbatim>\<open>LoadWays\<close> tests
  \<^verbatim>\<open>scanner.HasError()\<close> after \<^verbatim>\<open>way->Read(scanner)\<close>; in the model that is the case
  in which no way comes back.
\<close>

fun loadLoop ::
  "nat list \<Rightarrow> 'a FileScanner \<Rightarrow> 'a Way list \<Rightarrow> bool \<times> 'a FileScanner \<times> 'a Way list" where
  "loadLoop [] sc ws = (True, sc, ws)"
| "loadLoop (off # offs) sc ws =
     (case SetPos sc off of
        (False, sc') \<Rightarrow> (False, sc', ws)
      | (True, sc') \<Rightarrow>
          (case scanWay sc' of
             (sc'', None) \<Rightarrow> (False, sc'', ws)
           | (sc'', Some w) \<Rightarrow> loadLoop offs sc'' (ws @ [w])))"

definition LoadWays ::
  "'a NumericIndex \<Rightarrow> 'a word list \<Rightarrow> 'a FileScanner \<Rightarrow> 'a Way list \<Rightarrow>
   bool \<times> 'a FileScanner \<times> 'a Way list" where
  "LoadWays wayIndex ids sc ws =
     (case GetOffsets wayIndex ids of
        None \<Rightarrow> (False, sc, ws)
      | Some offsets \<Rightarrow>
          (case GetPos sc of
             None \<Rightarrow> (False, sc, ws)
           | Some oldPos \<Rightarrow>
               (case loadLoop offsets sc ws of
                  (False, sc', ws') \<Rightarrow> (False, sc', ws')
                | (True, sc', ws') \<Rightarrow>
                    (case SetPos sc' oldPos of
                       (False, sc'') \<Rightarrow> (False, sc'', ws')
                     | (True, sc'') \<Rightarrow> (True, sc'', ws')))))"

section \<open>Route nodes\<close>

text \<open>
  Modelled from the spec: \<^verbatim>\<open>RouteNode.h\<close> is not among the sources. A route node has
  an id, the list \<open>ways\<close>, the list \<open>paths\<close> and the list \<open>excludes\<close>; a path has the id
  of the neighbour junction, an index into \<open>ways\<close>, type, maximum speed and flags; an
  exclude has a source way and an index into \<open>paths\<close>. The indices are natural numbers.
  The floating-point fields of a path (\<^verbatim>\<open>lat\<close>, \<^verbatim>\<open>lon\<close>, \<^verbatim>\<open>distance\<close>) are left out.
\<close>

record (overloaded) 'a Path =
  pid :: "'a word"
  wayIndex :: nat
  ptype :: TypeId
  pmaxSpeed :: "8 word"
  pflags :: "8 word"

record (overloaded) 'a Exclude =
  sourceWay :: "'a word"
  targetPath :: nat

record (overloaded) 'a RouteNode =
  rnid :: "'a word"
  ways :: "'a word list"
  paths :: "'a Path list"
  excludes :: "'a Exclude list"

text \<open>
  Modelled from the spec: the flag constant \<^verbatim>\<open>RouteNode::hasAccess\<close> is declared in
  \<^verbatim>\<open>RouteNode.h\<close>; it is taken to be bit 0.
\<close>

definition RouteNode_hasAccess :: "8 word" where
  "RouteNode_hasAccess = 1"

definition CopyFlags :: "'a Way \<Rightarrow> 8 word" where
  "CopyFlags way = (if hasAccess way then or 0 RouteNode_hasAccess else 0)"

text \<open>The path record every branch fills in, for the neighbour \<open>target\<close>.\<close>

definition mkPath :: "'a Way \<Rightarrow> nat \<Rightarrow> 'a word \<Rightarrow> 'a Path" where
  "mkPath way idx target =
     \<lparr>pid = target, wayIndex = idx, ptype = wtype way, pmaxSpeed = maxSpeed way,
      pflags = CopyFlags way\<rparr>"

subsection \<open>Area and circular ways\<close>

text \<open>
  \<^verbatim>\<open>while (currentNode<size && nodes[currentNode].GetId()!=node->first) currentNode++\<close>:
  the first position of the id, or the length when the id is absent.
\<close>

fun findNode :: "'a word list \<Rightarrow> 'a word \<Rightarrow> nat" where
  "findNode [] nid = 0"
| "findNode (x # xs) nid = (if x = nid then 0 else Suc (findNode xs nid))"

text \<open>
  The forward walk \<^verbatim>\<open>while (nextNode!=currentNode && nodeWayMap.find(...)==end)\<close> with
  its wrap-around to 0, and the backward walk with its wrap-around to the last index.
  \<open>isJ\<close> is the membership test in \<^verbatim>\<open>nodeWayMap\<close>. Both indices are below the size
  of the way whenever the source reaches the loop (the \<^verbatim>\<open>assert\<close> before it); the
  model tests it, which makes the recursion total. The \<^verbatim>\<open>int\<close> indices of the source
  are natural numbers.
\<close>

function walkNext :: "('a word \<Rightarrow> bool) \<Rightarrow> 'a word list \<Rightarrow> nat \<Rightarrow> nat \<Rightarrow> nat" where
  "walkNext isJ ns c nx =
     (if nx \<noteq> c \<and> nx < length ns \<and> c < length ns \<and> \<not> isJ (ns ! nx)
      then walkNext isJ ns c (if length ns \<le> nx + 1 then 0 else nx + 1)
      else nx)"
  by pat_completeness auto
termination
  by (relation "measure (\<lambda>(isJ, ns, c, nx). if nx \<le> c then c - nx else c + length ns - nx)")
    (auto split: if_splits)

function walkPrev :: "('a word \<Rightarrow> bool) \<Rightarrow> 'a word list \<Rightarrow> nat \<Rightarrow> nat \<Rightarrow> nat" where
  "walkPrev isJ ns c pv =
     (if pv \<noteq> c \<and> pv < length ns \<and> c < length ns \<and> \<not> isJ (ns ! pv)
      then walkPrev isJ ns c (if pv = 0 then length ns - 1 else pv - 1)
      else pv)"
  by pat_completeness auto
termination
  by (relation "measure (\<lambda>(isJ, ns, c, pv). if c \<le> pv then pv - c else pv + length ns - c)")
    (auto split: if_splits)

declare walkNext.simps [simp del] walkPrev.simps [simp del]

datatype BuildError =
  AssertionFailed | EmptyWay | ReadFailed | OpenFailed | LoadWaysFailed | WriteFailed | CloseFailed

text \<open>
  The area branch and the circular branch of the source are the same text, but that the
  circular branch walks backward only when the way is not oneway: \<open>backward\<close> tells
  whether the backward walk is made. \<open>idx\<close> is \<^verbatim>\<open>routeNode.ways.size()-1\<close>. A failed
  \<^verbatim>\<open>assert\<close> is the error \<open>AssertionFailed\<close>.
\<close>

definition ringPaths ::
  "('a word \<Rightarrow> bool) \<Rightarrow> 'a Way \<Rightarrow> 'a word \<Rightarrow> nat \<Rightarrow> bool \<Rightarrow> BuildError + 'a Path list" where
  "ringPaths isJ way nid idx backward =
     (let ns = nodes way; n = length ns; currentNode = findNode ns nid in
      if n \<le> currentNode then Inl AssertionFailed
      else
        let nextNode = walkNext isJ ns currentNode (if n \<le> currentNode + 1 then 0 else currentNode + 1);
            fwd = (if nextNode \<noteq> currentNode then [mkPath way idx (ns ! nextNode)] else [])
        in if backward then
             let prevNode = walkPrev isJ ns currentNode (if currentNode = 0 then n - 1 else currentNode - 1)
             in Inr (fwd @ (if prevNode \<noteq> currentNode \<and> prevNode \<noteq> nextNode
                            then [mkPath way idx (ns ! prevNode)] else []))
           else Inr fwd)"

subsection \<open>Open ways\<close>

text \<open>
  \<^verbatim>\<open>int j=i-1; while (j>=0) { if (junction) break; j--; }\<close>: the argument is \<open>j + 1\<close>,
  the result the \<open>j\<close> at which the loop broke, or \<open>None\<close> for \<open>j < 0\<close>.
\<close>

fun scanBack :: "('a word \<Rightarrow> bool) \<Rightarrow> 'a word list \<Rightarrow> nat \<Rightarrow> nat option" where
  "scanBack isJ ns 0 = None"
| "scanBack isJ ns (Suc j) = (if isJ (ns ! j) then Some j else scanBack isJ ns j)"

text \<open>\<^verbatim>\<open>while (j<size) { if (junction) break; j++; }\<close>\<close>

function scanFwd :: "('a word \<Rightarrow> bool) \<Rightarrow> 'a word list \<Rightarrow> nat \<Rightarrow> nat option" where
  "scanFwd isJ ns j =
     (if j < length ns then (if isJ (ns ! j) then Some j else scanFwd isJ ns (j + 1)) else None)"
  by pat_completeness auto
termination
  by (relation "measure (\<lambda>(isJ, ns, j). length ns - j)") auto

declare scanFwd.simps [simp del]

definition openPathsAt :: "('a word \<Rightarrow> bool) \<Rightarrow> 'a Way \<Rightarrow> nat \<Rightarrow> nat \<Rightarrow> 'a Path list" where
  "openPathsAt isJ way idx i =
     (if 0 < i \<and> \<not> isOneway way then
        (case scanBack isJ (nodes way) i of
           None \<Rightarrow> []
         | Some j \<Rightarrow> [mkPath way idx (nodes way ! j)])
      else []) @
     (if i + 1 < length (nodes way) then
        (case scanFwd isJ (nodes way) (i + 1) of
           None \<Rightarrow> []
         | Some j \<Rightarrow> [mkPath way idx (nodes way ! j)])
      else [])"

definition openPaths :: "('a word \<Rightarrow> bool) \<Rightarrow> 'a Way \<Rightarrow> 'a word \<Rightarrow> nat \<Rightarrow> 'a Path list" where
  "openPaths isJ way nid idx =
     concat (map (\<lambda>i. if nodes way ! i = nid then openPathsAt isJ way idx i else [])
       [0..<length (nodes way)])"

subsection \<open>One route node\<close>

text \<open>
  The three branches. \<^verbatim>\<open>way->nodes.front()\<close> on a way without nodes is undefined in the
  source; the model makes it the error \<open>EmptyWay\<close>.
\<close>

definition pathsOfWay ::
  "('a word \<Rightarrow> bool) \<Rightarrow> 'a Way \<Rightarrow> 'a word \<Rightarrow> nat \<Rightarrow> BuildError + 'a Path list" where
  "pathsOfWay isJ way nid idx =
     (if isArea way then ringPaths isJ way nid idx True
      else if nodes way = [] then Inl EmptyWay
      else if hd (nodes way) = last (nodes way) then ringPaths isJ way nid idx (\<not> isOneway way)
      else Inr (openPaths isJ way nid idx))"

text \<open>
  The loop over the sorted way ids of the junction. A way id without a loaded way is
  reported and skipped (\<^verbatim>\<open>continue\<close>); otherwise the id is appended to \<^verbatim>\<open>ways\<close> and
  the paths of the way follow.
\<close>

fun addWays ::
  "('a word \<rightharpoonup> 'a Way) \<Rightarrow> ('a word \<Rightarrow> bool) \<Rightarrow> 'a word \<Rightarrow> 'a word list \<Rightarrow> 'a RouteNode \<Rightarrow>
   BuildError + 'a RouteNode" where
  "addWays waysMap isJ nid [] rn = Inr rn"
| "addWays waysMap isJ nid (w # ws) rn =
     (case waysMap w of
        None \<Rightarrow> addWays waysMap isJ nid ws rn
      | Some way \<Rightarrow>
          (case pathsOfWay isJ way nid (length (ways rn @ [w]) - 1) of
             Inl e \<Rightarrow> Inl e
           | Inr ps \<Rightarrow>
               addWays waysMap isJ nid ws (rn\<lparr>ways := ways rn @ [w], paths := paths rn @ ps\<rparr>)))"

text \<open>
  \<^verbatim>\<open>while (targetPath<paths.size() && ways[paths[targetPath].wayIndex]!=dest) targetPath++\<close>:
  the number of paths in front of the first one whose way is \<open>dst\<close>, all of them when
  there is none.
\<close>

fun findTargetPath :: "'a word list \<Rightarrow> 'a Path list \<Rightarrow> 'a word \<Rightarrow> nat" where
  "findTargetPath ws [] dst = 0"
| "findTargetPath ws (p # ps) dst =
     (if ws ! wayIndex p \<noteq> dst then Suc (findTargetPath ws ps dst) else 0)"

text \<open>The body of the two loops over source and destination way.\<close>

definition excludeFor ::
  "'a Restriction list \<Rightarrow> 'a word list \<Rightarrow> 'a Path list \<Rightarrow> 'a word \<Rightarrow> 'a word \<Rightarrow> 'a Exclude list" where
  "excludeFor turnConstraints ws ps src dst =
     (if src \<noteq> dst \<and> \<not> CanTurn turnConstraints src dst then
        (if findTargetPath ws ps dst < length ps
         then [\<lparr>sourceWay = src, targetPath = findTargetPath ws ps dst\<rparr>] else [])
      else [])"

definition turnExcludes ::
  "'a Restriction list \<Rightarrow> 'a word list \<Rightarrow> 'a word list \<Rightarrow> 'a Path list \<Rightarrow> 'a Exclude list" where
  "turnExcludes turnConstraints wayIds ws ps =
     concat (map (\<lambda>src. concat (map (\<lambda>dst. excludeFor turnConstraints ws ps src dst) wayIds)) wayIds)"

text \<open>
  The body of the loop over the junctions of a block, up to \<^verbatim>\<open>routeNode.Write\<close>.
  \<^verbatim>\<open>node->second.sort()\<close> sorts the list of the junction in \<^verbatim>\<open>nodeWayMap\<close> in place;
  the junction tests only ask for the keys of the map, so the map itself is not updated
  in the model.
\<close>

definition buildRouteNode ::
  "('a::len word \<rightharpoonup> 'a Restriction list) \<Rightarrow> ('a word \<rightharpoonup> 'a Way) \<Rightarrow> ('a word \<Rightarrow> bool) \<Rightarrow>
   'a word \<times> 'a word list \<Rightarrow> BuildError + 'a RouteNode" where
  "buildRouteNode restrictions waysMap isJ node =
     (case addWays waysMap isJ (fst node) (sort (snd node))
             \<lparr>rnid = fst node, ways = [], paths = [], excludes = []\<rparr> of
        Inl e \<Rightarrow> Inl e
      | Inr rn \<Rightarrow>
          (case restrictions (fst node) of
             None \<Rightarrow> Inr rn
           | Some turnConstraints \<Rightarrow>
               Inr (rn\<lparr>excludes :=
                      turnExcludes turnConstraints (sort (snd node)) (ways rn) (paths rn)\<rparr>)))"

section \<open>Writing \<^verbatim>\<open>route.dat\<close>\<close>

subsection \<open>The writer\<close>

text \<open>
  Modelled from the spec: \<^verbatim>\<open>FileWriter.cpp\<close> and \<^verbatim>\<open>RouteNode::Write\<close> are not among
  the sources, and the byte layout of a route node is left to them. The file is the list
  of the values written to it: a \<^verbatim>\<open>uint32_t\<close> or a whole route node. The position
  counts entries. Writing at the end appends; writing in front of the end replaces the
  entry there (the generator only ever replaces the count by a count). A write fails,
  and puts the writer in error, when the device takes no more entries (\<open>wcapacity\<close>); a
  writer in error ignores every call.
\<close>

datatype 'n Entry = Count "32 word" | Node 'n

record (overloaded) 'a FileWriter =
  wcontent :: "'a RouteNode Entry list"
  wpos :: nat
  wHasError :: bool
  wcapacity :: nat

definition putEntry :: "'a FileWriter \<Rightarrow> 'a RouteNode Entry \<Rightarrow> 'a FileWriter" where
  "putEntry w e =
     (if wHasError w then w
      else if wpos w < length (wcontent w)
        then w\<lparr>wcontent := (wcontent w)[wpos w := e], wpos := wpos w + 1\<rparr>
      else if length (wcontent w) < wcapacity w
        then w\<lparr>wcontent := wcontent w @ [e], wpos := length (wcontent w) + 1\<rparr>
      else w\<lparr>wHasError := True\<rparr>)"

definition Write_uint32 :: "'a FileWriter \<Rightarrow> 32 word \<Rightarrow> 'a FileWriter" where
  "Write_uint32 w v = putEntry w (Count v)"

text \<open>\<^verbatim>\<open>routeNode.Write(writer)\<close> returns whether the writer is free of errors.\<close>

definition RouteNode_Write :: "'a FileWriter \<Rightarrow> 'a RouteNode \<Rightarrow> bool \<times> 'a FileWriter" where
  "RouteNode_Write w rn = (\<not> wHasError (putEntry w (Node rn)), putEntry w (Node rn))"

definition Writer_SetPos :: "'a FileWriter \<Rightarrow> nat \<Rightarrow> 'a FileWriter" where
  "Writer_SetPos w p = (if wHasError w then w else w\<lparr>wpos := p\<rparr>)"

definition Writer_Close :: "'a FileWriter \<Rightarrow> bool" where
  "Writer_Close w = (\<not> wHasError w)"

text \<open>The file just after \<^verbatim>\<open>writer.Open\<close> has created it.\<close>

definition openedWriter :: "nat \<Rightarrow> 'a FileWriter" where
  "openedWriter capacity = \<lparr>wcontent = [], wpos = 0, wHasError = False, wcapacity = capacity\<rparr>"

subsection \<open>The block loop of Import\<close>

text \<open>
  The local state of \<^verbatim>\<open>Import\<close> that the block loop updates: the scanner over
  \<^verbatim>\<open>ways.dat\<close>, the writer of \<^verbatim>\<open>route.dat\<close> and the three \<^verbatim>\<open>uint32_t\<close> counters.
\<close>

record (overloaded) 'a BuildState =
  scanner :: "'a FileScanner"
  writer :: "'a FileWriter"
  handledRouteNodeCount :: "32 word"
  writtenRouteNodeCount :: "32 word"
  writtenRoutePathCount :: "32 word"

text \<open>\<^verbatim>\<open>waysMap[(*way)->GetId()]=*way\<close> over the loaded ways.\<close>

definition mapWays :: "'a Way list \<Rightarrow> ('a word \<rightharpoonup> 'a Way)" where
  "mapWays ws = fold (\<lambda>w m. m(wid w \<mapsto> w)) ws Map.empty"

text \<open>
  The loop \<^verbatim>\<open>for (size_t w=0; w<blockCount; w++)\<close> that builds and writes the route
  nodes of a block; a failed \<^verbatim>\<open>routeNode.Write\<close> is \<^verbatim>\<open>return false\<close>.
\<close>

fun storeNodes ::
  "('a::len word \<rightharpoonup> 'a Restriction list) \<Rightarrow> ('a word \<rightharpoonup> 'a Way) \<Rightarrow> ('a word \<Rightarrow> bool) \<Rightarrow>
   ('a word \<times> 'a word list) list \<Rightarrow> 'a BuildState \<Rightarrow> BuildError + 'a BuildState" where
  "storeNodes restrictions waysMap isJ [] st = Inr st"
| "storeNodes restrictions waysMap isJ (node # block) st =
     (case buildRouteNode restrictions waysMap isJ node of
        Inl e \<Rightarrow> Inl e
      | Inr routeNode \<Rightarrow>
          (case RouteNode_Write (writer st) routeNode of
             (False, w) \<Rightarrow> Inl WriteFailed
           | (True, w) \<Rightarrow>
               storeNodes restrictions waysMap isJ block
                 (st\<lparr>writer := w,
                     handledRouteNodeCount := handledRouteNodeCount st + 1,
                     writtenRouteNodeCount := writtenRouteNodeCount st + 1,
                     writtenRoutePathCount :=
                       writtenRoutePathCount st + of_nat (length (paths routeNode))\<rparr>)))"

text \<open>The set \<^verbatim>\<open>wayIds\<close> of a block, as the ascending list of its elements.\<close>

definition blockWayIds :: "('a::len word \<times> 'a word list) list \<Rightarrow> 'a word list" where
  "blockWayIds block = sort (remdups (concat (map snd block)))"

text \<open>The membership test \<^verbatim>\<open>nodeWayMap.find(id)!=nodeWayMap.end()\<close>.\<close>

definition isJunction :: "('a word \<times> 'a word list) list \<Rightarrow> 'a word \<Rightarrow> bool" where
  "isJunction nodeWayMap n = (n \<in> fst ` set nodeWayMap)"

text \<open>
  One block after it has been filled and found to refer to some way: load the ways, put
  them into a map, build and write the nodes.
\<close>

definition storeBlock ::
  "('a::len word \<rightharpoonup> 'a Restriction list) \<Rightarrow> 'a NumericIndex \<Rightarrow> ('a word \<times> 'a word list) list \<Rightarrow>
   ('a word \<times> 'a word list) list \<Rightarrow> 'a BuildState \<Rightarrow> BuildError + 'a BuildState" where
  "storeBlock restrictions index nodeWayMap block st =
     (case LoadWays index (blockWayIds block) (scanner st) [] of
        (False, sc, ws) \<Rightarrow> Inl LoadWaysFailed
      | (True, sc, ws) \<Rightarrow>
          storeNodes restrictions (mapWays ws) (isJunction nodeWayMap) block (st\<lparr>scanner := sc\<rparr>))"

text \<open>
  The outer loop \<^verbatim>\<open>while (node!=nodeWayMap.end())\<close>: \<open>rest\<close> is what lies behind the
  iterator \<^verbatim>\<open>node\<close>. A block takes up to \<open>blockSize\<close> entries. With a block size of 0
  the source fills nothing, finds \<^verbatim>\<open>wayIds\<close> empty and goes round again without end:
  the loop is a partial function, not returning is \<open>None\<close>.
\<close>

partial_function (option) writeBlocks ::
  "('a::len word \<rightharpoonup> 'a Restriction list) \<Rightarrow> 'a NumericIndex \<Rightarrow> ('a word \<times> 'a word list) list \<Rightarrow>
   nat \<Rightarrow> ('a word \<times> 'a word list) list \<Rightarrow> 'a BuildState \<Rightarrow> (BuildError + 'a BuildState) option" where
  "writeBlocks restrictions index nodeWayMap blockSize rest st =
     (if rest = [] then Some (Inr st)
      else if blockWayIds (take blockSize rest) = []
        then writeBlocks restrictions index nodeWayMap blockSize (drop blockSize rest) st
      else (case storeBlock restrictions index nodeWayMap (take blockSize rest) st of
              Inl e \<Rightarrow> Some (Inl e)
            | Inr st' \<Rightarrow>
                writeBlocks restrictions index nodeWayMap blockSize (drop blockSize rest) st'))"

declare writeBlocks.simps [code]

subsection \<open>The build phase and Import\<close>

text \<open>The placeholder: \<^verbatim>\<open>writer.Write(writtenRouteNodeCount)\<close> with the counter at 0.\<close>

definition startState :: "'a FileScanner \<Rightarrow> 'a FileWriter \<Rightarrow> 'a BuildState" where
  "startState sc w =
     \<lparr>scanner = sc, writer = Write_uint32 w 0, handledRouteNodeCount = 0,
      writtenRouteNodeCount = 0, writtenRoutePathCount = 0\<rparr>"

text \<open>
  After the loop: close the scanner, \<^verbatim>\<open>writer.SetPos(0)\<close>,
  \<^verbatim>\<open>writer.Write(writtenRouteNodeCount)\<close>, close the writer and the index.
\<close>

definition finishFile :: "'a NumericIndex \<Rightarrow> 'a BuildState \<Rightarrow> BuildError + 'a BuildState" where
  "finishFile index st =
     (if \<not> scloses (scanner st) then Inl CloseFailed
      else if \<not> Writer_Close (Write_uint32 (Writer_SetPos (writer st) 0) (writtenRouteNodeCount st))
        then Inl CloseFailed
      else if \<not> icloses index then Inl CloseFailed
      else Inr (st\<lparr>writer := Write_uint32 (Writer_SetPos (writer st) 0) (writtenRouteNodeCount st)\<rparr>))"

text \<open>
  The build phase of \<^verbatim>\<open>Import\<close>, from the placeholder to the final count, on the opened
  scanner and the newly created file.
\<close>

definition writeRouteNodes ::
  "('a::len word \<rightharpoonup> 'a Restriction list) \<Rightarrow> 'a NumericIndex \<Rightarrow> ('a word \<times> 'a word list) list \<Rightarrow>
   nat \<Rightarrow> 'a FileScanner \<Rightarrow> 'a FileWriter \<Rightarrow> (BuildError + 'a BuildState) option" where
  "writeRouteNodes restrictions index nodeWayMap blockSize sc w =
     (case writeBlocks restrictions index nodeWayMap blockSize nodeWayMap (startState sc w) of
        None \<Rightarrow> None
      | Some (Inl e) \<Rightarrow> Some (Inl e)
      | Some (Inr st) \<Rightarrow> Some (finishFile index st))"


text \<open>
  The state of the output between two route nodes: the file holds the placeholder and
  the records \<open>rns\<close>, the writer stands at the end and is free of errors, and the counter
  is the number of records.
\<close>

definition routeFile :: "'a BuildState \<Rightarrow> 'a RouteNode list \<Rightarrow> bool" where
  "routeFile st rns =
     (wcontent (writer st) = Count 0 # map Node rns
      \<and> wpos (writer st) = Suc (length rns)
      \<and> \<not> wHasError (writer st)
      \<and> writtenRouteNodeCount st = of_nat (length rns))"

section \<open>Way::Write and Way::Read\<close>

text \<open>
  \<^verbatim>\<open>Way.cpp\<close> stores the geometry of a way in \<^verbatim>\<open>nodes\<close> and the node ids in the
  parallel vector \<^verbatim>\<open>ids\<close> (0 for a node without id). The coordinates are \<^verbatim>\<open>double\<close>
  in the source and real numbers here; no statement below depends on their values.
  \<^verbatim>\<open>WayAttributes\<close> is not among the sources: the attributes are a value of some type
  \<open>'x\<close> that is written and read as a whole. \<^verbatim>\<open>conversionFactor\<close> is a constant of a
  header, it is the parameter \<open>cf\<close>.
\<close>

record (overloaded) ('a, 'x) WayData =
  attributes :: 'x
  dnodes :: "(real \<times> real) list"
  ids :: "'a word list"

subsection \<open>The file as a sequence of values\<close>

text \<open>
  Modelled from the spec: \<^verbatim>\<open>FileWriter.cpp\<close> and \<^verbatim>\<open>FileScanner\<close> are not among the
  sources. A file is the sequence of the values written: the attributes, a fixed-size
  \<^verbatim>\<open>uint32_t\<close> (\<^verbatim>\<open>Write\<close>), a variable-length \<^verbatim>\<open>uint32_t\<close> and a variable-length
  \<^verbatim>\<open>Id\<close> (\<^verbatim>\<open>WriteNumber\<close>). A read takes the first value when it is of the kind
  asked for; otherwise it yields 0 and puts the scanner in error. A scanner or writer in
  error does nothing.
\<close>

datatype ('i, 'x) Token = TAttr 'x | TFixed32 "32 word" | TNum32 "32 word" | TNumId 'i

record ('i, 'x) Stream =
  toks :: "('i, 'x) Token list"
  inError :: bool

definition emit :: "('i, 'x) Stream \<Rightarrow> ('i, 'x) Token list \<Rightarrow> ('i, 'x) Stream" where
  "emit s ts = (if inError s then s else s\<lparr>toks := toks s @ ts\<rparr>)"

definition readAttr :: "('i, 'x) Stream \<Rightarrow> 'x option \<times> ('i, 'x) Stream" where
  "readAttr s =
     (if inError s then (None, s)
      else case toks s of
        TAttr a # r \<Rightarrow> (Some a, s\<lparr>toks := r\<rparr>)
      | _ \<Rightarrow> (None, s\<lparr>inError := True\<rparr>))"

definition readFixed32 :: "('i, 'x) Stream \<Rightarrow> 32 word \<times> ('i, 'x) Stream" where
  "readFixed32 s =
     (if inError s then (0, s)
      else case toks s of
        TFixed32 v # r \<Rightarrow> (v, s\<lparr>toks := r\<rparr>)
      | _ \<Rightarrow> (0, s\<lparr>inError := True\<rparr>))"

definition readNum32 :: "('i, 'x) Stream \<Rightarrow> 32 word \<times> ('i, 'x) Stream" where
  "readNum32 s =
     (if inError s then (0, s)
      else case toks s of
        TNum32 v # r \<Rightarrow> (v, s\<lparr>toks := r\<rparr>)
      | _ \<Rightarrow> (0, s\<lparr>inError := True\<rparr>))"

definition readNumId :: "('a::len word, 'x) Stream \<Rightarrow> 'a word \<times> ('a word, 'x) Stream" where
  "readNumId s =
     (if inError s then (0, s)
      else case toks s of
        TNumId v # r \<Rightarrow> (v, s\<lparr>toks := r\<rparr>)
      | _ \<Rightarrow> (0, s\<lparr>inError := True\<rparr>))"

subsection \<open>Way::Write\<close>

text \<open>\<^verbatim>\<open>(uint32_t)round(x)\<close>\<close>

definition toUint32 :: "real \<Rightarrow> 32 word" where
  "toUint32 x = word_of_int (round x)"

text \<open>The minimum loops over the coordinates, started at \<^verbatim>\<open>nodes[0]\<close>.\<close>

definition minOf :: "real list \<Rightarrow> real" where
  "minOf xs = fold (\<lambda>x m. min m x) (tl xs) (hd xs)"

text \<open>
  The first loop over \<^verbatim>\<open>ids\<close>: the state is \<open>(idCount, minId)\<close>; \<^verbatim>\<open>minId\<close> has no
  initial value in the source and is only read once \<^verbatim>\<open>idCount\<close> is not 0.
\<close>

fun countIds :: "'a::len word list \<Rightarrow> 32 word \<times> 'a word \<Rightarrow> 32 word \<times> 'a word" where
  "countIds [] s = s"
| "countIds (x # xs) (idCount, minId) =
     countIds xs
       (if x \<noteq> 0 then (idCount + 1, if idCount = 0 then x else min minId x)
        else (idCount, minId))"

text \<open>The values \<^verbatim>\<open>Way::Write\<close> hands to the writer, in order.\<close>

definition wayTokens :: "real \<Rightarrow> 'a::len word \<Rightarrow> ('a, 'x) WayData \<Rightarrow> ('a word, 'x) Token list" where
  "wayTokens cf minId0 w =
     (let minLat = minOf (map fst (dnodes w));
          minLon = minOf (map snd (dnodes w));
          (idCount, minId) = countIds (ids w) (0, minId0)
      in [TAttr (attributes w), TNum32 (of_nat (length (dnodes w))),
          TFixed32 (toUint32 ((minLat + 90) * cf)), TFixed32 (toUint32 ((minLon + 180) * cf))]
         @ concat (map (\<lambda>(lat, lon).
                     [TNum32 (toUint32 ((lat - minLat) * cf)), TNum32 (toUint32 ((lon - minLon) * cf))])
             (dnodes w))
         @ [TNum32 idCount]
         @ (if idCount > 0 then
              TNumId minId #
              concat (map (\<lambda>i. if ids w ! i \<noteq> 0
                                 then [TNum32 (of_nat i), TNumId (ids w ! i - minId)] else [])
                [0..<length (ids w)])
            else []))"

datatype WayError = AssertFailed | OutOfRange

text \<open>
  \<^verbatim>\<open>Way::Write\<close>: the \<^verbatim>\<open>assert\<close>, then \<^verbatim>\<open>attributes.Write\<close> (which fails on a writer
  in error), then the values; the result is \<^verbatim>\<open>!writer.HasError()\<close> and the writer.
\<close>

definition Way_Write ::
  "real \<Rightarrow> 'a::len word \<Rightarrow> ('a, 'x) WayData \<Rightarrow> ('a word, 'x) Stream \<Rightarrow>
   WayError + (bool \<times> ('a word, 'x) Stream)" where
  "Way_Write cf minId0 w s =
     (if dnodes w = [] then Inl AssertFailed
      else if inError s then Inr (False, s)
      else Inr (True, emit s (wayTokens cf minId0 w)))"

subsection \<open>Way::Read\<close>

text \<open>The loop that reads \<^verbatim>\<open>latValue\<close> and \<^verbatim>\<open>lonValue\<close> of every node.\<close>

fun readNodes ::
  "nat \<Rightarrow> ('i, 'x) Stream \<Rightarrow> (32 word \<times> 32 word) list \<Rightarrow> ('i, 'x) Stream \<times> (32 word \<times> 32 word) list" where
  "readNodes 0 s acc = (s, acc)"
| "readNodes (Suc n) s acc =
     (case readNum32 s of
        (latValue, s1) \<Rightarrow>
          (case readNum32 s1 of
             (lonValue, s2) \<Rightarrow> readNodes n s2 (acc @ [(latValue, lonValue)])))"

text \<open>
  The loop \<^verbatim>\<open>for (size_t i=1; i<=idCount; i++)\<close> with \<^verbatim>\<open>ids[index]=id+minId\<close>. An
  index outside \<^verbatim>\<open>ids\<close> is undefined in the source; it is the error \<open>OutOfRange\<close>.
\<close>

fun readIds ::
  "nat \<Rightarrow> 'a::len word \<Rightarrow> ('a word, 'x) Stream \<Rightarrow> 'a word list \<Rightarrow>
   WayError + (('a word, 'x) Stream \<times> 'a word list)" where
  "readIds 0 minId s xs = Inr (s, xs)"
| "readIds (Suc n) minId s xs =
     (case readNum32 s of
        (index, s1) \<Rightarrow>
          (case readNumId s1 of
             (v, s2) \<Rightarrow>
               if unat index < length xs then readIds n minId s2 (xs[unat index := v + minId])
               else Inl OutOfRange))"

text \<open>\<^verbatim>\<open>ids.resize(nodeCount,0)\<close>: cut, or fill up with 0; what is there stays.\<close>

definition resize0 :: "'a::len word list \<Rightarrow> nat \<Rightarrow> 'a word list" where
  "resize0 xs n = take n xs @ replicate (n - length xs) 0"

text \<open>
  The end of \<^verbatim>\<open>Way::Read\<close>, from \<^verbatim>\<open>ids.resize(nodeCount,0)\<close> on: \<open>xs\<close> is the
  vector \<^verbatim>\<open>ids\<close> of the object before the call.
\<close>

definition readIdSection ::
  "('a::len word, 'x) Stream \<Rightarrow> nat \<Rightarrow> 'a word list \<Rightarrow>
   WayError + (('a word, 'x) Stream \<times> 'a word list)" where
  "readIdSection s nodeCount xs =
     (case readNum32 s of
        (idCount, s1) \<Rightarrow>
          if idCount > 0 then
            (case readNumId s1 of
               (minId, s2) \<Rightarrow> readIds (unat idCount) minId s2 (resize0 xs nodeCount))
          else Inr (s1, resize0 xs nodeCount))"

text \<open>The middle of \<^verbatim>\<open>Way::Read\<close>: the two minima and the nodes.\<close>

definition readNodeSection ::
  "real \<Rightarrow> ('i, 'x) Stream \<Rightarrow> nat \<Rightarrow> ('i, 'x) Stream \<times> (real \<times> real) list" where
  "readNodeSection cf s nodeCount =
     (case readFixed32 s of
        (minLat, s1) \<Rightarrow>
          (case readFixed32 s1 of
             (minLon, s2) \<Rightarrow>
               (case readNodes nodeCount s2 [] of
                  (s3, vs) \<Rightarrow>
                    (s3, map (\<lambda>(latValue, lonValue).
                               (real (unat (minLat + latValue)) / cf - 90,
                                real (unat (minLon + lonValue)) / cf - 180)) vs))))"

text \<open>
  \<^verbatim>\<open>Way::Read\<close> on the object \<open>w\<close>. The result is the return value, the scanner and the
  object. \<^verbatim>\<open>scanner.GetPos(fileOffset)\<close> fails on a scanner in error; the offset itself
  is not kept in the model.
\<close>

definition Way_Read ::
  "real \<Rightarrow> ('a::len word, 'x) Stream \<Rightarrow> ('a, 'x) WayData \<Rightarrow>
   WayError + (bool \<times> ('a word, 'x) Stream \<times> ('a, 'x) WayData)" where
  "Way_Read cf s w =
     (if inError s then Inr (False, s, w)
      else case readAttr s of
        (None, s1) \<Rightarrow> Inr (False, s1, w)
      | (Some a, s1) \<Rightarrow>
          (case readNum32 s1 of
             (nodeCount, s2) \<Rightarrow>
               if inError s2 then Inr (False, s2, w\<lparr>attributes := a\<rparr>)
               else
                 (case readNodeSection cf s2 (unat nodeCount) of
                    (s3, ns) \<Rightarrow>
                      (case readIdSection s3 (unat nodeCount) (ids w) of
                         Inl e \<Rightarrow> Inl e
                       | Inr (s4, xs) \<Rightarrow>
                           Inr (\<not> inError s4, s4, \<lparr>attributes = a, dnodes = ns, ids = xs\<rparr>)))))"

section \<open>Scenarios\<close>

text \<open>
  Concrete inputs, with 32-bit ids. In the type configuration type 1 is routable, type 2
  is not, type 9 is ignored, and two of the restriction relations have a type.
\<close>

definition exConfig :: TypeConfig where
  "exConfig =
     \<lparr>typeIgnore = 0,
      GetRelationTypeId =
        (\<lambda>s. if s = ''restriction_no_left_turn'' then 21
             else if s = ''restriction_only_straight_on'' then 22 else 0),
      GetIgnore = (\<lambda>t. t = 9),
      CanBeRoute = (\<lambda>t. t = 1)\<rparr>"

text \<open>
  Scenario S3 of the specification: the closed area way 10 over the nodes 1, 2, 3, 1.
  The open way 11 over 2 and 3 makes 2 and 3 junctions; node 1 is a junction by its two
  positions in way 10.
\<close>

definition W10 :: "32 Way" where
  "W10 = \<lparr>wid = 10, wtype = 1, maxSpeed = 50, isArea = True, isOneway = False,
           hasAccess = True, nodes = [1, 2, 3, 1]\<rparr>"

definition W11 :: "32 Way" where
  "W11 = \<lparr>wid = 11, wtype = 1, maxSpeed = 50, isArea = False, isOneway = False,
           hasAccess = True, nodes = [2, 3]\<rparr>"


definition S3_index :: "32 NumericIndex" where
  "S3_index =
     \<lparr>GetOffsets = (\<lambda>is. if set is \<subseteq> {10, 11}
                          then Some (map (\<lambda>i. if i = 10 then 4 else 40) is) else None),
      icloses = True\<rparr>"

definition S3_scanner :: "32 FileScanner" where
  "S3_scanner =
     \<lparr>sdata = (\<lambda>off. if off = 4 then Some (W10, 40)
                     else if off = 40 then Some (W11, 60) else None),
      ssize = 60, spos = 0, sHasError = False, scloses = True\<rparr>"

definition S3_nodeWayMap :: "(32 word \<times> 32 word list) list" where
  "S3_nodeWayMap = [(1, [10, 10]), (2, [10, 11]), (3, [10, 11])]"

text \<open>The same file cut off behind way 10: nothing can be decoded at offset 40.\<close>

definition cut_scanner :: "32 FileScanner" where
  "cut_scanner =
     \<lparr>sdata = (\<lambda>off. if off = 4 then Some (W10, 40) else None),
      ssize = 40, spos = 0, sHasError = False, scloses = True\<rparr>"

text \<open>
  Scenario S4 of the specification: three open ways meet at node 5, and the turn from
  way 20 into way 21 is forbidden there.
\<close>

definition W20 :: "32 Way" where
  "W20 = \<lparr>wid = 20, wtype = 1, maxSpeed = 30, isArea = False, isOneway = False,
           hasAccess = True, nodes = [5, 6]\<rparr>"

definition W21 :: "32 Way" where
  "W21 = \<lparr>wid = 21, wtype = 1, maxSpeed = 30, isArea = False, isOneway = False,
           hasAccess = True, nodes = [5, 7]\<rparr>"

definition W22 :: "32 Way" where
  "W22 = \<lparr>wid = 22, wtype = 1, maxSpeed = 30, isArea = False, isOneway = False,
           hasAccess = True, nodes = [8, 5]\<rparr>"

definition S4_restrictions :: "32 word \<rightharpoonup> 32 Restriction list" where
  "S4_restrictions = [5 \<mapsto> [\<lparr>rtype = forbit, rfrom = 20, rto = 21\<rparr>]]"

definition S4_isJ :: "32 word \<Rightarrow> bool" where
  "S4_isJ n = (n \<in> {5, 6, 7, 8})"

text \<open>
  A restriction relation with two \<open>from\<close> ways, a node and a way as \<open>via\<close>, and one
  \<open>to\<close> way.
\<close>

definition exRelation :: "32 RawRelation" where
  "exRelation =
     \<lparr>reltype = 21,
      members =
        [\<lparr>mtype = memberWay, mid = 20, mrole = ''from''\<rparr>,
         \<lparr>mtype = memberNode, mid = 5, mrole = ''via''\<rparr>,
         \<lparr>mtype = memberWay, mid = 23, mrole = ''via''\<rparr>,
         \<lparr>mtype = memberWay, mid = 22, mrole = ''from''\<rparr>,
         \<lparr>mtype = memberWay, mid = 21, mrole = ''to''\<rparr>]\<rparr>"

text \<open>
  A way file with a lollipop (node 5 twice in the routable way 30 and nowhere else in a
  routable way), a way of a type that cannot be routed and a way of an ignored type.
\<close>

definition lollipop_waysdat :: "32 Way DataFile" where
  "lollipop_waysdat =
     \<lparr>dopens = True, dcount = Some 3,
      drecords =
        [Some \<lparr>wid = 30, wtype = 1, maxSpeed = 0, isArea = False, isOneway = False,
               hasAccess = True, nodes = [4, 5, 6, 7, 5]\<rparr>,
         Some \<lparr>wid = 31, wtype = 2, maxSpeed = 0, isArea = False, isOneway = False,
               hasAccess = True, nodes = [4, 6, 4]\<rparr>,
         Some \<lparr>wid = 32, wtype = 9, maxSpeed = 0, isArea = False, isOneway = False,
               hasAccess = True, nodes = [7, 7]\<rparr>],
      dcloses = True\<rparr>"

text \<open>A way of \<^verbatim>\<open>Way.cpp\<close> with four nodes, two of them without id.\<close>

definition exWayData :: "(32, nat) WayData" where
  "exWayData =
     \<lparr>attributes = 7, dnodes = [(1, 2), (3, 4), (0, 1), (5, 5)], ids = [0, 12, 0, 9]\<rparr>"

text \<open>The route node of junction 5 in scenario S4.\<close>

definition S4_routeNode :: "32 RouteNode" where
  "S4_routeNode =
     \<lparr>rnid = 5, ways = [20, 21, 22],
      paths = [mkPath W20 0 6, mkPath W21 1 7, mkPath W22 2 8],
      excludes = [\<lparr>sourceWay = 20, targetPath = 1\<rparr>]\<rparr>"

text \<open>
  The build phase on scenario S3, with blocks of two junctions and a device that takes
  ten entries, and the state it ends in.
\<close>

definition S3_run :: "(BuildError + 32 BuildState) option" where
  "S3_run = writeRouteNodes Map.empty S3_index S3_nodeWayMap 2 S3_scanner (openedWriter 10)"

definition S3_final :: "32 BuildState" where
  "S3_final = projr (the S3_run)"




text \<open>
  A way of one node without id, and a way object that was filled before and holds the
  id 5 for its node.
\<close>

definition staleSrc :: "(32, nat) WayData" where
  "staleSrc = \<lparr>attributes = 7, dnodes = [(1, 2)], ids = [0]\<rparr>"

definition staleDst :: "(32, nat) WayData" where
  "staleDst = \<lparr>attributes = 3, dnodes = [(0, 0)], ids = [5]\<rparr>"

section \<open>Properties of CanTurn\<close>

lemma CanTurn_loop_filter:
  "CanTurn_loop (filter (\<lambda>r. rfrom r = f) rs) f t d = CanTurn_loop rs f t d"
  by (induction rs arbitrary: d) (auto split: RestrictionType.splits)

lemma CanTurn_loop_no_match:
  "\<forall>r \<in> set rs. rfrom r \<noteq> f \<Longrightarrow> CanTurn_loop rs f t d = d"
  by (induction rs arbitrary: d) auto

lemma CanTurn_filter:
  "CanTurn (filter (\<lambda>r. rfrom r = f) rs) f t = CanTurn rs f t"
proof (cases "filter (\<lambda>r. rfrom r = f) rs = []")
  case True
  then have "\<forall>r \<in> set rs. rfrom r \<noteq> f"
    by (simp add: filter_empty_conv)
  then have "CanTurn_loop rs f t True = True"
    by (rule CanTurn_loop_no_match)
  with True show ?thesis
    by (simp add: CanTurn_def)
next
  case False
  then have "rs \<noteq> []"
    by auto
  with False show ?thesis
    by (simp add: CanTurn_def CanTurn_loop_filter)
qed

text \<open>
  Claim C3. With no restriction every turn is allowed; a single \<open>allow\<close> from \<open>a\<close> to
  \<open>b\<close> permits the turn from \<open>a\<close> to \<open>b\<close> and denies the turn from \<open>a\<close> to any other
  way \<open>c\<close>; a single \<open>forbit\<close> from \<open>a\<close> to \<open>b\<close> denies the turn from \<open>a\<close> to \<open>b\<close> and
  permits the turn from \<open>a\<close> to any other way \<open>c\<close>; and dropping from a list all
  restrictions whose \<open>from\<close> is not the source way never changes the answer.
\<close>

theorem CanTurn_laws:
  fixes a b c :: "'a::len word"
  assumes "c \<noteq> b"
  shows "CanTurn [] a b
       \<and> CanTurn [\<lparr>rtype = allow, rfrom = a, rto = b\<rparr>] a b
       \<and> \<not> CanTurn [\<lparr>rtype = allow, rfrom = a, rto = b\<rparr>] a c
       \<and> \<not> CanTurn [\<lparr>rtype = forbit, rfrom = a, rto = b\<rparr>] a b
       \<and> CanTurn [\<lparr>rtype = forbit, rfrom = a, rto = b\<rparr>] a c
       \<and> CanTurn (filter (\<lambda>r. rfrom r = a) rs) a t = CanTurn rs a t"
  using assms by (simp add: CanTurn_def CanTurn_filter [unfolded CanTurn_def])

theorem CanTurn_laws_witness:
  "(3 :: 32 word) \<noteq> 2
   \<and> CanTurn [] (1 :: 32 word) 2
   \<and> CanTurn [\<lparr>rtype = allow, rfrom = 1 :: 32 word, rto = 2\<rparr>] 1 2
   \<and> \<not> CanTurn [\<lparr>rtype = allow, rfrom = 1 :: 32 word, rto = 2\<rparr>] 1 3
   \<and> \<not> CanTurn [\<lparr>rtype = forbit, rfrom = 1 :: 32 word, rto = 2\<rparr>] 1 2
   \<and> CanTurn [\<lparr>rtype = forbit, rfrom = 1 :: 32 word, rto = 2\<rparr>] 1 3
   \<and> CanTurn (filter (\<lambda>r. rfrom r = 1)
        [\<lparr>rtype = allow, rfrom = 7 :: 32 word, rto = 2\<rparr>,
         \<lparr>rtype = forbit, rfrom = 1, rto = 3\<rparr>]) 1 3
      = CanTurn [\<lparr>rtype = allow, rfrom = 7 :: 32 word, rto = 2\<rparr>,
         \<lparr>rtype = forbit, rfrom = 1, rto = 3\<rparr>] 1 3"
proof -
  have h: "(3 :: 32 word) \<noteq> 2"
    by simp
  show ?thesis
    using h CanTurn_laws [OF h, of 1
      "[\<lparr>rtype = allow, rfrom = 7 :: 32 word, rto = 2\<rparr>, \<lparr>rtype = forbit, rfrom = 1, rto = 3\<rparr>]" 3]
    by simp
qed

section \<open>Properties of the restriction reader\<close>

lemma lastMember_Cons:
  "lastMember (m # ms) ty r d =
     lastMember ms ty r (if mtype m = ty \<and> mrole m = r then mid m else d)"
  by (simp add: lastMember_def split: list.splits)

lemma scanMembers_lastMember:
  "scanMembers ms (f, v, t) =
     (lastMember ms memberWay ''from'' f, lastMember ms memberNode ''via'' v,
      lastMember ms memberWay ''to'' t)"
proof (induction ms arbitrary: f v t)
  case Nil
  show ?case
    by (simp add: lastMember_def)
next
  case (Cons m ms)
  show ?case
    by (simp add: Cons.IH lastMember_Cons)
qed

text \<open>
  Claim C9. For a recognised restriction relation, each of the three slots holds the id
  of the last member of its kind and role in member order (earlier ones are overwritten;
  with no such member the slot keeps its initial value, 0 for \<open>via\<close>), and the
  restriction is appended at \<open>via\<close> exactly when the three values are all non-zero;
  otherwise the map is unchanged.
\<close>

theorem handleRelation_last_member_wins:
  fixes from0 to0 :: "'a::len word"
  assumes "reltype relation \<in> posRestrictions tc \<union> negRestrictions tc"
  shows "handleRelation tc from0 to0 relation restrictions =
     (let f = lastMember (members relation) memberWay ''from'' from0;
          via = lastMember (members relation) memberNode ''via'' 0;
          t = lastMember (members relation) memberWay ''to'' to0
      in if f \<noteq> 0 \<and> via \<noteq> 0 \<and> t \<noteq> 0 then
           push_back_at restrictions via
             \<lparr>rtype = (if reltype relation \<in> posRestrictions tc then allow else forbit),
              rfrom = f, rto = t\<rparr>
         else restrictions)"
  using assms by (simp add: handleRelation_def scanMembers_lastMember Let_def)

section \<open>Properties of the junction finder\<close>

lemma scanRecords_all_read:
  "scanRecords (length ws) (map Some ws @ rest) step s = Some (fold step ws s)"
  by (induction ws arbitrary: s) auto

lemma scanRecords_take:
  assumes "take n rs = map Some ws" and "length ws = n"
  shows "scanRecords n rs step s = Some (fold step ws s)"
proof -
  have "rs = map Some ws @ drop n rs"
    using assms(1) append_take_drop_id [of n rs] by simp
  then have "scanRecords n rs step s = scanRecords (length ws) (map Some ws @ drop n rs) step s"
    using assms(2) by simp
  then show ?thesis
    by (simp add: scanRecords_all_read)
qed

lemma scanFile_all_read:
  assumes "dopens f" and "dcount f = Some c" and "c \<noteq> - 1"
    and "take (unat c) (drecords f) = map Some ws" and "length ws = unat c" and "dcloses f"
  shows "scanFile f step s = Some (fold step ws s)"
  using assms by (simp add: scanFile_def scanRecords_take)

text \<open>The count a map holds for a key, 0 when the key is absent.\<close>

lemma distinct_countNode: "distinct (map fst m) \<Longrightarrow> distinct (map fst (countNode m n))"
  by (simp add: countNode_def distinct_update split: option.splits)

lemma map_of_countNode:
  "map_of (countNode m x) n =
     (if n = x then Some (case map_of m x of None \<Rightarrow> 1 | Some c \<Rightarrow> c + 1) else map_of m n)"
  by (simp add: countNode_def update_conv' split: option.splits)

lemma fold_countNode:
  "distinct (map fst m) \<Longrightarrow>
   distinct (map fst (fold (\<lambda>n m. countNode m n) ns m)) \<and>
   (\<forall>n. (case map_of (fold (\<lambda>n m. countNode m n) ns m) n of None \<Rightarrow> 0 | Some c \<Rightarrow> c)
       = (case map_of m n of None \<Rightarrow> 0 | Some c \<Rightarrow> c) + count_list ns n)"
proof (induction ns arbitrary: m)
  case Nil
  then show ?case
    by simp
next
  case (Cons x ns)
  have d: "distinct (map fst (countNode m x))"
    using Cons.prems by (rule distinct_countNode)
  show ?case
    using Cons.IH [OF d] by (auto simp: map_of_countNode split: option.splits)
qed

lemma fold_countWay:
  "distinct (map fst m) \<Longrightarrow>
   distinct (map fst (fold (countWay tc) ws m)) \<and>
   (\<forall>n. (case map_of (fold (countWay tc) ws m) n of None \<Rightarrow> 0 | Some c \<Rightarrow> c)
       = (case map_of m n of None \<Rightarrow> 0 | Some c \<Rightarrow> c) + appearances tc ws n)"
proof (induction ws arbitrary: m)
  case Nil
  then show ?case
    by (simp add: appearances_def)
next
  case (Cons w ws)
  show ?case
  proof (cases "skipsWay tc w")
    case True
    then have "\<not> routable tc w"
      by (auto simp: skipsWay_def routable_def)
    with True Cons.IH [OF Cons.prems] show ?thesis
      by (simp add: countWay_def appearances_def)
  next
    case False
    then have r: "routable tc w"
      by (auto simp: skipsWay_def routable_def)
    let ?m = "fold (\<lambda>n m. countNode m n) (nodes w) m"
    have step: "distinct (map fst ?m) \<and>
        (\<forall>n. (case map_of ?m n of None \<Rightarrow> 0 | Some c \<Rightarrow> c)
           = (case map_of m n of None \<Rightarrow> 0 | Some c \<Rightarrow> c) + count_list (nodes w) n)"
      using Cons.prems by (rule fold_countNode)
    then have d: "distinct (map fst ?m)"
      by simp
    show ?thesis
      using Cons.IH [OF d] step False r by (simp add: countWay_def appearances_def)
  qed
qed

lemma collectJunctions_set:
  "collectJunctions m js = js \<union> {k. \<exists>c. (k, c) \<in> set m \<and> 2 \<le> c}"
  unfolding collectJunctions_def
  by (induction m arbitrary: js) (auto split: if_splits)

lemma collectJunctions_counts:
  assumes "distinct (map fst m)"
  shows "collectJunctions m js = js \<union> {k. 2 \<le> (case map_of m k of None \<Rightarrow> 0 | Some c \<Rightarrow> c)}"
proof -
  have "\<And>k c. ((k, c) \<in> set m) = (map_of m k = Some c)"
    using assms by (simp add: map_of_eq_Some_iff)
  then show ?thesis
    by (auto simp: collectJunctions_set split: option.splits)
qed

text \<open>
  Claim C6. When \<^verbatim>\<open>ways.dat\<close> is read without error, \<^verbatim>\<open>ReadJunctions\<close> started on an
  empty \<^verbatim>\<open>junctions\<close> set returns exactly the node ids whose number of appearances over
  all routable ways is at least 2, every position of every way counting once (also
  repeated positions within one way); ways of an ignored or non-routable type are
  filtered out of the count.
\<close>

theorem ReadJunctions_exact:
  assumes "dopens waysdat" and "dcount waysdat = Some c" and "c \<noteq> - 1"
    and "take (unat c) (drecords waysdat) = map Some ws" and "length ws = unat c"
    and "dcloses waysdat"
  shows "ReadJunctions tc waysdat {} = Some {n. 2 \<le> appearances tc ws n}"
proof -
  have scan: "scanFile waysdat (countWay tc) [] = Some (fold (countWay tc) ws [])"
    using assms by (rule scanFile_all_read)
  have inv: "distinct (map fst (fold (countWay tc) ws [])) \<and>
      (\<forall>n. (case map_of (fold (countWay tc) ws []) n of None \<Rightarrow> 0 | Some c \<Rightarrow> c)
          = (case map_of [] n of None \<Rightarrow> 0 | Some c \<Rightarrow> c) + appearances tc ws n)"
    by (rule fold_countWay) simp
  then have d: "distinct (map fst (fold (countWay tc) ws []))"
    by simp
  show ?thesis
    using inv by (simp add: ReadJunctions_def scan collectJunctions_counts [OF d])
qed

section \<open>The readers on concrete files\<close>


theorem handleRelation_last_member_wins_witness:
  "reltype exRelation \<in> posRestrictions exConfig \<union> negRestrictions exConfig
   \<and> lastMember (members exRelation) memberWay ''from'' 0 = 22
   \<and> lastMember (members exRelation) memberNode ''via'' 0 = 5
   \<and> lastMember (members exRelation) memberWay ''to'' 0 = 21
   \<and> handleRelation exConfig 0 0 exRelation Map.empty 5
       = Some [\<lparr>rtype = forbit, rfrom = 22, rto = 21\<rparr>]"
proof -
  have h: "reltype exRelation \<in> posRestrictions exConfig \<union> negRestrictions exConfig"
    by (simp add: exRelation_def exConfig_def posRestrictions_def negRestrictions_def)
  have f: "lastMember (members exRelation) memberWay ''from'' 0 = 22"
    and v: "lastMember (members exRelation) memberNode ''via'' 0 = 5"
    and t: "lastMember (members exRelation) memberWay ''to'' 0 = 21"
    by (simp_all add: exRelation_def lastMember_def)
  have p: "reltype exRelation \<notin> posRestrictions exConfig"
    by (simp add: exRelation_def exConfig_def posRestrictions_def)
  show ?thesis
    using handleRelation_last_member_wins [OF h, of 0 0 Map.empty] h f v t p
    by (simp add: push_back_at_def)
qed

theorem ReadJunctions_exact_witness:
  "dopens lollipop_waysdat \<and> dcount lollipop_waysdat = Some 3 \<and> (3 :: 32 word) \<noteq> - 1
   \<and> take (unat (3 :: 32 word)) (drecords lollipop_waysdat)
       = map Some (map the (drecords lollipop_waysdat))
   \<and> length (map the (drecords lollipop_waysdat)) = unat (3 :: 32 word)
   \<and> dcloses lollipop_waysdat
   \<and> ReadJunctions exConfig lollipop_waysdat {}
       = Some {n. 2 \<le> appearances exConfig (map the (drecords lollipop_waysdat)) n}
   \<and> ReadJunctions exConfig lollipop_waysdat {} = Some {5}"
proof -
  have h1: "dopens lollipop_waysdat" and h2: "dcount lollipop_waysdat = Some 3"
    and h3: "(3 :: 32 word) \<noteq> - 1"
    and h4: "take (unat (3 :: 32 word)) (drecords lollipop_waysdat)
       = map Some (map the (drecords lollipop_waysdat))"
    and h5: "length (map the (drecords lollipop_waysdat)) = unat (3 :: 32 word)"
    and h6: "dcloses lollipop_waysdat"
    by (simp_all add: lollipop_waysdat_def)
  have e: "ReadJunctions exConfig lollipop_waysdat {} = Some {5}"
    by code_simp
  show ?thesis
    using ReadJunctions_exact [OF h1 h2 h3 h4 h5 h6, of exConfig] h1 h2 h3 h4 h5 h6 e
    by simp
qed


section \<open>Properties of LoadWays\<close>

lemma SetPos_True: "SetPos sc p = (True, sc') \<Longrightarrow> sc' = sc\<lparr>spos := p\<rparr>"
  by (auto simp: SetPos_def split: if_splits)

lemma scanWay_Some: "scanWay sc = (sc', Some w) \<Longrightarrow> \<exists>p. sc' = sc\<lparr>spos := p\<rparr>"
  by (auto simp: scanWay_def split: if_splits option.splits)

lemma loadLoop_True:
  "loadLoop offs sc ws = (True, sc', ws') \<Longrightarrow> \<exists>p. sc' = sc\<lparr>spos := p\<rparr>"
proof (induction offs arbitrary: sc ws)
  case Nil
  then have "sc' = sc\<lparr>spos := spos sc\<rparr>"
    by simp
  then show ?case ..
next
  case (Cons off offs)
  from Cons.prems obtain sc1 sc2 w where
    s1: "SetPos sc off = (True, sc1)" and s2: "scanWay sc1 = (sc2, Some w)"
    and l: "loadLoop offs sc2 (ws @ [w]) = (True, sc', ws')"
    by (auto split: prod.splits bool.splits option.splits)
  from Cons.IH [OF l] obtain p where "sc' = sc2\<lparr>spos := p\<rparr>" ..
  moreover from scanWay_Some [OF s2] obtain q where "sc2 = sc1\<lparr>spos := q\<rparr>" ..
  moreover note SetPos_True [OF s1]
  ultimately have "sc' = sc\<lparr>spos := p\<rparr>"
    by simp
  then show ?case ..
qed

text \<open>
  Claim C8, as the code has it. When \<^verbatim>\<open>LoadWays\<close> returns \<^verbatim>\<open>true\<close>, the scanner is
  what it was on entry: the file position is the position on entry, and no other part
  of the scanner has changed.
\<close>

theorem LoadWays_restores_scanner:
  assumes "LoadWays index wayIds sc ws = (True, sc', ws')"
  shows "sc' = sc \<and> spos sc' = spos sc"
proof -
  from assms obtain offsets oldPos sc1 where
    g: "GetPos sc = Some oldPos" and l: "loadLoop offsets sc ws = (True, sc1, ws')"
    and s: "SetPos sc1 oldPos = (True, sc')"
    by (auto simp: LoadWays_def split: option.splits prod.splits bool.splits)
  from g have "oldPos = spos sc"
    by (auto simp: GetPos_def split: if_splits)
  moreover from loadLoop_True [OF l] obtain p where "sc1 = sc\<lparr>spos := p\<rparr>" ..
  moreover note SetPos_True [OF s]
  ultimately have "sc' = sc"
    by simp
  then show ?thesis
    by simp
qed


theorem LoadWays_restores_scanner_witness:
  "LoadWays S3_index [10, 11] (S3_scanner\<lparr>spos := 4\<rparr>) [] = (True, S3_scanner\<lparr>spos := 4\<rparr>, [W10, W11])
   \<and> spos (S3_scanner\<lparr>spos := 4\<rparr>) = 4"
proof -
  define r where "r = LoadWays S3_index [10, 11] (S3_scanner\<lparr>spos := 4\<rparr>) []"
  have e: "fst r = True \<and> snd (snd r) = [W10, W11]"
    unfolding r_def by code_simp
  then have "r = (True, fst (snd r), [W10, W11])"
    by (cases r) auto
  then have L: "LoadWays S3_index [10, 11] (S3_scanner\<lparr>spos := 4\<rparr>) [] = (True, fst (snd r), [W10, W11])"
    by (simp only: r_def [symmetric])
  have "fst (snd r) = S3_scanner\<lparr>spos := 4\<rparr>"
    using LoadWays_restores_scanner [OF L] by (rule conjunct1)
  with L show ?thesis
    by simp
qed

text \<open>
  Claim C8 as stated fails on a return of \<^verbatim>\<open>false\<close>: on the file that is cut off behind
  way 10, \<^verbatim>\<open>LoadWays\<close> for the ways 10 and 11, entered at position 4, reads way 10,
  moves to offset 40, fails to read there, and returns \<^verbatim>\<open>false\<close> with the scanner at
  offset 40 and in error.
\<close>

theorem LoadWays_position_counterexample:
  "fst (LoadWays S3_index [10, 11] (cut_scanner\<lparr>spos := 4\<rparr>) []) = False
   \<and> spos (fst (snd (LoadWays S3_index [10, 11] (cut_scanner\<lparr>spos := 4\<rparr>) []))) = 40
   \<and> spos (cut_scanner\<lparr>spos := 4\<rparr>) = 4
   \<and> sHasError (fst (snd (LoadWays S3_index [10, 11] (cut_scanner\<lparr>spos := 4\<rparr>) []))) = True
   \<and> sHasError (cut_scanner\<lparr>spos := 4\<rparr>) = False"
  by code_simp



section \<open>Properties of a route node\<close>

subsection \<open>Paths point at the way they come from\<close>

lemma wayIndex_mkPath: "wayIndex (mkPath way idx target) = idx"
  by (simp add: mkPath_def)

lemma ringPaths_wayIndex:
  "ringPaths isJ way nid idx backward = Inr ps \<Longrightarrow> p \<in> set ps \<Longrightarrow> wayIndex p = idx"
  by (auto simp: ringPaths_def Let_def wayIndex_mkPath split: if_splits)

lemma in_guarded: "p \<in> set (if c then xs else []) \<Longrightarrow> p \<in> set xs"
  by (cases c) simp_all

lemma in_found:
  "p \<in> set (case x of None \<Rightarrow> [] | Some j \<Rightarrow> [mkPath way idx (f j)]) \<Longrightarrow> wayIndex p = idx"
  by (cases x) (simp_all add: wayIndex_mkPath)

lemma openPathsAt_wayIndex:
  assumes "p \<in> set (openPathsAt isJ way idx i)"
  shows "wayIndex p = idx"
proof -
  have "p \<in> set (if 0 < i \<and> \<not> isOneway way then
               (case scanBack isJ (nodes way) i of
                  None \<Rightarrow> []
                | Some j \<Rightarrow> [mkPath way idx (nodes way ! j)])
             else [])
      \<union> set (if i + 1 < length (nodes way) then
               (case scanFwd isJ (nodes way) (i + 1) of
                  None \<Rightarrow> []
                | Some j \<Rightarrow> [mkPath way idx (nodes way ! j)])
             else [])"
    using assms unfolding openPathsAt_def set_append .
  then show ?thesis
    by (elim UnE) (erule in_guarded [THEN in_found])+
qed

lemma openPaths_wayIndex: "p \<in> set (openPaths isJ way nid idx) \<Longrightarrow> wayIndex p = idx"
  by (auto simp: openPaths_def openPathsAt_wayIndex split: if_splits)

lemma pathsOfWay_wayIndex:
  "pathsOfWay isJ way nid idx = Inr ps \<Longrightarrow> p \<in> set ps \<Longrightarrow> wayIndex p = idx"
  by (auto simp: pathsOfWay_def ringPaths_wayIndex openPaths_wayIndex split: if_splits)

subsection \<open>The way loop\<close>

lemma addWays_result:
  "addWays waysMap isJ nid ws rn = Inr rn' \<Longrightarrow>
   ways rn' = ways rn @ filter (\<lambda>w. waysMap w \<noteq> None) ws
   \<and> rnid rn' = rnid rn \<and> excludes rn' = excludes rn"
proof (induction ws arbitrary: rn)
  case Nil
  then show ?case
    by simp
next
  case (Cons w ws)
  show ?case
  proof (cases "waysMap w")
    case None
    with Cons.prems have "addWays waysMap isJ nid ws rn = Inr rn'"
      by simp
    from Cons.IH [OF this] None show ?thesis
      by simp
  next
    case (Some way)
    with Cons.prems obtain ps where
      rec: "addWays waysMap isJ nid ws (rn\<lparr>ways := ways rn @ [w], paths := paths rn @ ps\<rparr>) = Inr rn'"
      by (auto split: sum.splits)
    from Cons.IH [OF rec] Some show ?thesis
      by simp
  qed
qed

lemma addWays_wayIndex:
  "addWays waysMap isJ nid ws rn = Inr rn' \<Longrightarrow>
   \<forall>p \<in> set (paths rn). wayIndex p < length (ways rn) \<Longrightarrow>
   \<forall>p \<in> set (paths rn'). wayIndex p < length (ways rn')"
proof (induction ws arbitrary: rn)
  case Nil
  then show ?case
    by simp
next
  case (Cons w ws)
  show ?case
  proof (cases "waysMap w")
    case None
    with Cons.prems(1) have "addWays waysMap isJ nid ws rn = Inr rn'"
      by simp
    then show ?thesis
      using Cons.prems(2) by (rule Cons.IH)
  next
    case (Some way)
    with Cons.prems(1) obtain ps where
      ps: "pathsOfWay isJ way nid (length (ways rn @ [w]) - 1) = Inr ps"
      and rec: "addWays waysMap isJ nid ws (rn\<lparr>ways := ways rn @ [w], paths := paths rn @ ps\<rparr>) = Inr rn'"
      by (auto split: sum.splits)
    have "\<forall>p \<in> set ps. wayIndex p = length (ways rn)"
      using pathsOfWay_wayIndex [OF ps] by simp
    with Cons.prems(2)
    have "\<forall>p \<in> set (paths (rn\<lparr>ways := ways rn @ [w], paths := paths rn @ ps\<rparr>)).
            wayIndex p < length (ways (rn\<lparr>ways := ways rn @ [w], paths := paths rn @ ps\<rparr>))"
      by (auto simp: less_Suc_eq)
    with rec show ?thesis
      by (rule Cons.IH)
  qed
qed

lemma buildRouteNode_result:
  assumes "buildRouteNode restrictions waysMap isJ node = Inr rn"
  shows "ways rn = filter (\<lambda>w. waysMap w \<noteq> None) (sort (snd node))"
    and "rnid rn = fst node"
    and "\<forall>p \<in> set (paths rn). wayIndex p < length (ways rn)"
    and "excludes rn =
      (case restrictions (fst node) of
         None \<Rightarrow> []
       | Some tc \<Rightarrow> turnExcludes tc (sort (snd node)) (ways rn) (paths rn))"
proof -
  from assms obtain rn0 where
    a: "addWays waysMap isJ (fst node) (sort (snd node))
          \<lparr>rnid = fst node, ways = [], paths = [], excludes = []\<rparr> = Inr rn0"
    and r: "rn = (case restrictions (fst node) of
                   None \<Rightarrow> rn0
                 | Some tc \<Rightarrow> rn0\<lparr>excludes := turnExcludes tc (sort (snd node)) (ways rn0) (paths rn0)\<rparr>)"
    by (auto simp: buildRouteNode_def split: sum.splits option.splits)
  have "\<forall>p \<in> set (paths rn0). wayIndex p < length (ways rn0)"
    using a by (rule addWays_wayIndex) simp
  note res = addWays_result [OF a] this
  from res r show "ways rn = filter (\<lambda>w. waysMap w \<noteq> None) (sort (snd node))"
    by (simp split: option.splits)
  from res r show "rnid rn = fst node"
    by (simp split: option.splits)
  from res r show "\<forall>p \<in> set (paths rn). wayIndex p < length (ways rn)"
    by (simp split: option.splits)
  from res r show "excludes rn =
      (case restrictions (fst node) of
         None \<Rightarrow> []
       | Some tc \<Rightarrow> turnExcludes tc (sort (snd node)) (ways rn) (paths rn))"
    by (simp split: option.splits)
qed

subsection \<open>The order of \<open>ways\<close>\<close>

text \<open>
  Claim C2, as the code has it. The \<open>ways\<close> of a route node are sorted ascending: for
  all valid indices \<open>i < j\<close>, \<open>ways[i] \<le> ways[j]\<close>. They are strictly ascending when
  the list of the junction in the node-way map has no way id twice. A way id that is
  twice in that list (the junction occurs twice in the way) is twice in \<open>ways\<close>.
\<close>

theorem ways_sorted:
  assumes "buildRouteNode restrictions waysMap isJ node = Inr rn"
  shows "(\<forall>i j. i < j \<and> j < length (ways rn) \<longrightarrow> ways rn ! i \<le> ways rn ! j)
       \<and> (distinct (snd node) \<longrightarrow>
            (\<forall>i j. i < j \<and> j < length (ways rn) \<longrightarrow> ways rn ! i < ways rn ! j))
       \<and> (\<forall>w. waysMap w \<noteq> None \<longrightarrow> count_list (ways rn) w = count_list (snd node) w)"
proof -
  have w: "ways rn = filter (\<lambda>w. waysMap w \<noteq> None) (sort (snd node))"
    using assms by (rule buildRouteNode_result(1))
  have s: "sorted (ways rn)"
    unfolding w by (rule sorted_wrt_filter) simp
  have 1: "\<forall>i j. i < j \<and> j < length (ways rn) \<longrightarrow> ways rn ! i \<le> ways rn ! j"
    using s by (auto simp: sorted_iff_nth_mono)
  have 2: "\<forall>i j. i < j \<and> j < length (ways rn) \<longrightarrow> ways rn ! i < ways rn ! j"
    if d: "distinct (snd node)"
  proof -
    have "distinct (ways rn)"
      unfolding w using d by simp
    with s have "sorted_wrt (<) (ways rn)"
      by (simp add: strict_sorted_iff)
    then show ?thesis
      by (auto simp: sorted_wrt_iff_nth_less)
  qed
  have 3: "count_list (ways rn) x = count_list (snd node) x" if "waysMap x \<noteq> None" for x
  proof -
    have "count_list (filter P xs) x = (if P x then count_list xs x else 0)" for P and xs :: "'a word list"
      by (induction xs) auto
    then have "count_list (ways rn) x = count_list (sort (snd node)) x"
      using that by (simp add: w)
    also have "\<dots> = count_list (snd node) x"
      by (simp add: count_list_eq_length_filter filter_sort)
    finally show ?thesis .
  qed
  from 1 2 3 show ?thesis
    by blast
qed


lemma S4_build:
  "buildRouteNode S4_restrictions (mapWays [W20, W21, W22]) S4_isJ (5, [22, 20, 21])
     = Inr S4_routeNode"
  by code_simp

theorem ways_sorted_witness:
  "buildRouteNode S4_restrictions (mapWays [W20, W21, W22]) S4_isJ (5, [22, 20, 21])
     = Inr S4_routeNode
   \<and> distinct [22, 20, 21 :: 32 word]
   \<and> ways S4_routeNode = [20, 21, 22]
   \<and> ways S4_routeNode ! 0 \<le> ways S4_routeNode ! 2
   \<and> ways S4_routeNode ! 0 < ways S4_routeNode ! 2"
proof -
  have d: "distinct (snd (5 :: 32 word, [22, 20, 21 :: 32 word]))"
    by simp
  have l: "(0 :: nat) < 2 \<and> 2 < length (ways S4_routeNode)"
    by (simp add: S4_routeNode_def)
  from ways_sorted [OF S4_build] d l
  have "ways S4_routeNode ! 0 \<le> ways S4_routeNode ! 2"
    and "ways S4_routeNode ! 0 < ways S4_routeNode ! 2"
    by blast+
  with S4_build show ?thesis
    by (simp add: S4_routeNode_def)
qed

text \<open>
  Claim C2 as stated fails where a junction occurs twice in a way: node 1 of scenario S3
  has the list \<open>[10, 10]\<close> in the node-way map, its route node has \<open>ways = [10, 10]\<close>,
  and \<open>ways[0] < ways[1]\<close> does not hold.
\<close>

theorem ways_strict_counterexample:
  "(case buildRouteNode Map.empty (mapWays [W10, W11]) (isJunction S3_nodeWayMap) (1, [10, 10]) of
      Inl e \<Rightarrow> False
    | Inr rn \<Rightarrow> ways rn = [10, 10] \<and> 1 < length (ways rn) \<and> \<not> ways rn ! 0 < ways rn ! 1)"
  by code_simp

subsection \<open>The area triangle\<close>


text \<open>
  Claim C1, evaluated on the code. The closed area way 10 over the nodes 1, 2, 3, 1 with
  the three junctions 1, 2 and 3 (scenario S3): the results are the \<open>ways\<close> of the route
  node and, for every path, the neighbour and the way index. Junctions 2 and 3 get two
  paths over way 10 each, to the two other junctions. Junction 1, the id at the first and
  the last position, gets four paths over way 10: the way is twice in its list, and each
  time the backward walk stops at the last position, which holds node 1 itself.
\<close>

theorem S3_area_triangle_paths:
  "map_sum id (\<lambda>rn. (ways rn, map (\<lambda>p. (pid p, wayIndex p)) (paths rn)))
     (buildRouteNode Map.empty (mapWays [W10, W11]) (isJunction S3_nodeWayMap) (1, [10, 10]))
     = Inr ([10, 10], [(2, 0), (1, 0), (2, 1), (1, 1)])
   \<and> map_sum id (\<lambda>rn. (ways rn, map (\<lambda>p. (pid p, wayIndex p)) (paths rn)))
     (buildRouteNode Map.empty (mapWays [W10, W11]) (isJunction S3_nodeWayMap) (2, [10, 11]))
     = Inr ([10, 11], [(3, 0), (1, 0), (3, 1)])
   \<and> map_sum id (\<lambda>rn. (ways rn, map (\<lambda>p. (pid p, wayIndex p)) (paths rn)))
     (buildRouteNode Map.empty (mapWays [W10, W11]) (isJunction S3_nodeWayMap) (3, [10, 11]))
     = Inr ([10, 11], [(1, 0), (2, 0), (2, 1)])"
  by code_simp


subsection \<open>Excludes\<close>

lemma findTargetPath_le: "findTargetPath ws ps dst \<le> length ps"
  by (induction ps) auto

lemma findTargetPath_found:
  "findTargetPath ws ps dst < length ps \<Longrightarrow> ws ! wayIndex (ps ! findTargetPath ws ps dst) = dst"
  by (induction ps) (auto split: if_splits)

lemma findTargetPath_first:
  "k < findTargetPath ws ps dst \<Longrightarrow> ws ! wayIndex (ps ! k) \<noteq> dst"
proof (induction ps arbitrary: k)
  case Nil
  then show ?case
    by simp
next
  case (Cons p ps)
  then show ?case
    by (cases k) (auto split: if_splits)
qed

lemma findTargetPath_none:
  "\<forall>k < length ps. ws ! wayIndex (ps ! k) \<noteq> dst \<Longrightarrow> findTargetPath ws ps dst = length ps"
proof (induction ps)
  case Nil
  show ?case
    by simp
next
  case (Cons p ps)
  have "\<forall>k < length ps. ws ! wayIndex (ps ! k) \<noteq> dst"
  proof (intro allI impI)
    fix k
    assume "k < length ps"
    then have "Suc k < length (p # ps)"
      by simp
    with Cons.prems have "ws ! wayIndex ((p # ps) ! Suc k) \<noteq> dst"
      by blast
    then show "ws ! wayIndex (ps ! k) \<noteq> dst"
      by simp
  qed
  then have "findTargetPath ws ps dst = length ps"
    by (rule Cons.IH)
  moreover have "ws ! wayIndex p \<noteq> dst"
    using Cons.prems by force
  ultimately show ?case
    by simp
qed

lemma excludeFor_cases:
  "e \<in> set (excludeFor tc ws ps src dst) \<Longrightarrow>
   sourceWay e = src \<and> src \<noteq> dst \<and> \<not> CanTurn tc src dst
   \<and> targetPath e = findTargetPath ws ps dst \<and> targetPath e < length ps"
  by (auto simp: excludeFor_def split: if_splits)

lemma turnExcludes_cases:
  "e \<in> set (turnExcludes tc wayIds ws ps) \<Longrightarrow>
   \<exists>src \<in> set wayIds. \<exists>dst \<in> set wayIds. e \<in> set (excludeFor tc ws ps src dst)"
  by (auto simp: turnExcludes_def)

text \<open>
  Claim C4. Every exclude of a route node comes from a pair of a source and a
  destination way of the junction whose turn the restrictions of the junction deny. Its
  \<open>targetPath\<close> is a valid index into \<open>paths\<close>, the path there has a valid way index,
  the way of that path is the destination way and differs from \<open>sourceWay\<close>, and no
  path in front of it has the destination way (it is the first such index). The excludes
  are the contributions of the pairs in loop order, and the contribution of a pair is
  empty when no path has the destination way.
\<close>

theorem excludes_target_first_match:
  assumes "buildRouteNode restrictions waysMap isJ node = Inr rn"
  shows "(\<forall>e \<in> set (excludes rn).
            \<exists>tc dst. restrictions (fst node) = Some tc
              \<and> sourceWay e \<in> set (snd node) \<and> dst \<in> set (snd node)
              \<and> \<not> CanTurn tc (sourceWay e) dst
              \<and> targetPath e < length (paths rn)
              \<and> wayIndex (paths rn ! targetPath e) < length (ways rn)
              \<and> ways rn ! wayIndex (paths rn ! targetPath e) = dst
              \<and> ways rn ! wayIndex (paths rn ! targetPath e) \<noteq> sourceWay e
              \<and> (\<forall>k < targetPath e. ways rn ! wayIndex (paths rn ! k) \<noteq> dst))
       \<and> excludes rn =
           (case restrictions (fst node) of
              None \<Rightarrow> []
            | Some tc \<Rightarrow>
                concat (map (\<lambda>src. concat (map (\<lambda>dst. excludeFor tc (ways rn) (paths rn) src dst)
                  (sort (snd node)))) (sort (snd node))))
       \<and> (\<forall>tc src dst. (\<forall>k < length (paths rn). ways rn ! wayIndex (paths rn ! k) \<noteq> dst)
            \<longrightarrow> excludeFor tc (ways rn) (paths rn) src dst = [])"
proof -
  note res = buildRouteNode_result [OF assms]
  have 1: "\<exists>tc dst. restrictions (fst node) = Some tc
              \<and> sourceWay e \<in> set (snd node) \<and> dst \<in> set (snd node)
              \<and> \<not> CanTurn tc (sourceWay e) dst
              \<and> targetPath e < length (paths rn)
              \<and> wayIndex (paths rn ! targetPath e) < length (ways rn)
              \<and> ways rn ! wayIndex (paths rn ! targetPath e) = dst
              \<and> ways rn ! wayIndex (paths rn ! targetPath e) \<noteq> sourceWay e
              \<and> (\<forall>k < targetPath e. ways rn ! wayIndex (paths rn ! k) \<noteq> dst)"
    if e: "e \<in> set (excludes rn)" for e
  proof -
    from e res(4) obtain tc where tc: "restrictions (fst node) = Some tc"
      and e': "e \<in> set (turnExcludes tc (sort (snd node)) (ways rn) (paths rn))"
      by (auto split: option.splits)
    from turnExcludes_cases [OF e'] obtain src dst where
      src: "src \<in> set (snd node)" and dst: "dst \<in> set (snd node)"
      and x: "e \<in> set (excludeFor tc (ways rn) (paths rn) src dst)"
      by auto
    note c = excludeFor_cases [OF x]
    from c have lt: "targetPath e < length (paths rn)"
      by simp
    then have "paths rn ! targetPath e \<in> set (paths rn)"
      by simp
    with res(3) have wi: "wayIndex (paths rn ! targetPath e) < length (ways rn)"
      by blast
    from c have "findTargetPath (ways rn) (paths rn) dst < length (paths rn)"
      by simp
    from findTargetPath_found [OF this] c
    have eq: "ways rn ! wayIndex (paths rn ! targetPath e) = dst"
      by simp
    have first: "\<forall>k < targetPath e. ways rn ! wayIndex (paths rn ! k) \<noteq> dst"
      using c findTargetPath_first [of _ "ways rn" "paths rn" dst] by simp
    from tc src dst c lt wi eq first show ?thesis
      by auto
  qed
  have 2: "excludes rn =
           (case restrictions (fst node) of
              None \<Rightarrow> []
            | Some tc \<Rightarrow>
                concat (map (\<lambda>src. concat (map (\<lambda>dst. excludeFor tc (ways rn) (paths rn) src dst)
                  (sort (snd node)))) (sort (snd node))))"
    using res(4) by (simp add: turnExcludes_def split: option.splits)
  have 3: "excludeFor tc (ways rn) (paths rn) src dst = []"
    if "\<forall>k < length (paths rn). ways rn ! wayIndex (paths rn ! k) \<noteq> dst" for tc src dst
    using findTargetPath_none [OF that] by (simp add: excludeFor_def)
  from 1 2 3 show ?thesis
    by blast
qed

theorem excludes_target_first_match_witness:
  "buildRouteNode S4_restrictions (mapWays [W20, W21, W22]) S4_isJ (5, [22, 20, 21])
     = Inr S4_routeNode
   \<and> excludes S4_routeNode = [\<lparr>sourceWay = 20, targetPath = 1\<rparr>]
   \<and> (\<exists>tc dst. S4_restrictions 5 = Some tc
        \<and> (20 :: 32 word) \<in> set [22, 20, 21] \<and> dst \<in> set [22, 20, 21]
        \<and> \<not> CanTurn tc 20 dst
        \<and> (1 :: nat) < length (paths S4_routeNode)
        \<and> wayIndex (paths S4_routeNode ! 1) < length (ways S4_routeNode)
        \<and> ways S4_routeNode ! wayIndex (paths S4_routeNode ! 1) = dst
        \<and> ways S4_routeNode ! wayIndex (paths S4_routeNode ! 1) \<noteq> 20)"
proof -
  have x: "excludes S4_routeNode = [\<lparr>sourceWay = 20, targetPath = 1\<rparr>]"
    by (simp add: S4_routeNode_def)
  then have "\<lparr>sourceWay = 20, targetPath = 1\<rparr> \<in> set (excludes S4_routeNode)"
    by simp
  with excludes_target_first_match [OF S4_build]
  have "\<exists>tc dst. S4_restrictions (fst (5 :: 32 word, [22, 20, 21 :: 32 word])) = Some tc
      \<and> sourceWay \<lparr>sourceWay = 20 :: 32 word, targetPath = 1\<rparr> \<in> set (snd (5 :: 32 word, [22, 20, 21 :: 32 word]))
      \<and> dst \<in> set (snd (5 :: 32 word, [22, 20, 21 :: 32 word]))
      \<and> \<not> CanTurn tc (sourceWay \<lparr>sourceWay = 20 :: 32 word, targetPath = 1\<rparr>) dst
      \<and> targetPath \<lparr>sourceWay = 20 :: 32 word, targetPath = 1\<rparr> < length (paths S4_routeNode)
      \<and> wayIndex (paths S4_routeNode ! targetPath \<lparr>sourceWay = 20 :: 32 word, targetPath = 1\<rparr>) < length (ways S4_routeNode)
      \<and> ways S4_routeNode ! wayIndex (paths S4_routeNode ! targetPath \<lparr>sourceWay = 20 :: 32 word, targetPath = 1\<rparr>) = dst
      \<and> ways S4_routeNode ! wayIndex (paths S4_routeNode ! targetPath \<lparr>sourceWay = 20 :: 32 word, targetPath = 1\<rparr>)
          \<noteq> sourceWay \<lparr>sourceWay = 20 :: 32 word, targetPath = 1\<rparr>
      \<and> (\<forall>k < targetPath \<lparr>sourceWay = 20 :: 32 word, targetPath = 1\<rparr>.
            ways S4_routeNode ! wayIndex (paths S4_routeNode ! k) \<noteq> dst)"
    by blast
  then obtain tc dst where "S4_restrictions 5 = Some tc
        \<and> (20 :: 32 word) \<in> set [22, 20, 21] \<and> dst \<in> set [22, 20, 21]
        \<and> \<not> CanTurn tc 20 dst
        \<and> (1 :: nat) < length (paths S4_routeNode)
        \<and> wayIndex (paths S4_routeNode ! 1) < length (ways S4_routeNode)
        \<and> ways S4_routeNode ! wayIndex (paths S4_routeNode ! 1) = dst
        \<and> ways S4_routeNode ! wayIndex (paths S4_routeNode ! 1) \<noteq> 20"
    by auto
  then have "\<exists>tc dst. S4_restrictions 5 = Some tc
        \<and> (20 :: 32 word) \<in> set [22, 20, 21] \<and> dst \<in> set [22, 20, 21]
        \<and> \<not> CanTurn tc 20 dst
        \<and> (1 :: nat) < length (paths S4_routeNode)
        \<and> wayIndex (paths S4_routeNode ! 1) < length (ways S4_routeNode)
        \<and> ways S4_routeNode ! wayIndex (paths S4_routeNode ! 1) = dst
        \<and> ways S4_routeNode ! wayIndex (paths S4_routeNode ! 1) \<noteq> 20"
    by blast
  with S4_build x show ?thesis
    by blast
qed


section \<open>Properties of the block loop\<close>

subsection \<open>The file while it is written\<close>

lemma putEntry_error: "wHasError w \<Longrightarrow> putEntry w e = w"
  by (simp add: putEntry_def)

lemma RouteNode_Write_routeFile:
  assumes "routeFile st rns"
    and "RouteNode_Write (writer st) rn = (True, w)"
  shows "routeFile
      (st\<lparr>writer := w, handledRouteNodeCount := h,
          writtenRouteNodeCount := writtenRouteNodeCount st + 1, writtenRoutePathCount := c\<rparr>)
      (rns @ [rn])"
proof -
  from assms(2) have ok: "\<not> wHasError (putEntry (writer st) (Node rn))"
    and w: "w = putEntry (writer st) (Node rn)"
    by (auto simp: RouteNode_Write_def)
  from assms(1) ok show ?thesis
    unfolding w by (auto simp: routeFile_def putEntry_def split: if_splits)
qed

lemma storeNodes_routeFile:
  "storeNodes restrictions waysMap isJ block st = Inr st' \<Longrightarrow>
   routeFile st rns \<Longrightarrow>
   \<exists>new. (routeFile st' (rns @ new))
     \<and> map Inr new = map (buildRouteNode restrictions waysMap isJ) block"
proof (induction block arbitrary: st rns)
  case Nil
  then show ?case
    by auto
next
  case (Cons node block)
  from Cons.prems(1) obtain rn w where
    b: "buildRouteNode restrictions waysMap isJ node = Inr rn"
    and wr: "RouteNode_Write (writer st) rn = (True, w)"
    and rec: "storeNodes restrictions waysMap isJ block
        (st\<lparr>writer := w,
            handledRouteNodeCount := handledRouteNodeCount st + 1,
            writtenRouteNodeCount := writtenRouteNodeCount st + 1,
            writtenRoutePathCount := writtenRoutePathCount st + of_nat (length (paths rn))\<rparr>) = Inr st'"
    by (auto split: sum.splits prod.splits bool.splits)
  have "routeFile
      (st\<lparr>writer := w,
          handledRouteNodeCount := handledRouteNodeCount st + 1,
          writtenRouteNodeCount := writtenRouteNodeCount st + 1,
          writtenRoutePathCount := writtenRoutePathCount st + of_nat (length (paths rn))\<rparr>)
      (rns @ [rn])"
    using Cons.prems(2) wr by (rule RouteNode_Write_routeFile)
  from Cons.IH [OF rec this] obtain new where
    n: "routeFile st' ((rns @ [rn]) @ new)"
    and m: "map Inr new = map (buildRouteNode restrictions waysMap isJ) block"
    by blast
  from n m b have "(routeFile st' (rns @ (rn # new)))
     \<and> map Inr (rn # new) = map (buildRouteNode restrictions waysMap isJ) (node # block)"
    by simp
  then show ?case
    by blast
qed

lemma storeBlock_routeFile:
  assumes "storeBlock restrictions index nodeWayMap block st = Inr st'"
    and "routeFile st rns"
  shows "\<exists>new waysMap. (routeFile st' (rns @ new))
     \<and> map Inr new = map (buildRouteNode restrictions waysMap (isJunction nodeWayMap)) block"
proof -
  from assms(1) obtain sc ws where
    s: "storeNodes restrictions (mapWays ws) (isJunction nodeWayMap) block (st\<lparr>scanner := sc\<rparr>) = Inr st'"
    by (auto simp: storeBlock_def split: prod.splits bool.splits)
  from assms(2) have "routeFile (st\<lparr>scanner := sc\<rparr>) rns"
    by (simp add: routeFile_def)
  from storeNodes_routeFile [OF s this] show ?thesis
    by blast
qed

lemma writeBlocks_routeFile:
  "writeBlocks restrictions index nodeWayMap blockSize rest st = Some y \<Longrightarrow>
   \<forall>rns. routeFile st rns \<longrightarrow>
     (case y of
        Inl e \<Rightarrow> True
      | Inr st' \<Rightarrow> \<exists>new. routeFile st' (rns @ new))"
proof (erule writeBlocks.raw_induct [rotated], goal_cases)
  case (1 loop restrictions index nodeWayMap blockSize rest st y)
  note IH = "1"(1) and body = "1"(2)
  show ?case
  proof (intro allI impI)
    fix rns
    assume inv: "routeFile st rns"
    show "case y of Inl e \<Rightarrow> True | Inr st' \<Rightarrow> \<exists>new. routeFile st' (rns @ new)"
    proof (cases "rest = []")
      case True
      with body have "y = Inr st"
        by simp
      with inv have "routeFile st (rns @ [])"
        by simp
      then have "\<exists>new. routeFile st (rns @ new)"
        by (rule exI)
      with \<open>y = Inr st\<close> show ?thesis
        by simp
    next
      case False
      show ?thesis
      proof (cases "blockWayIds (take blockSize rest) = []")
        case True
        with False body have "loop restrictions index nodeWayMap blockSize (drop blockSize rest) st = Some y"
          by simp
        from IH [OF this] inv show ?thesis
          by blast
      next
        case nonempty: False
        show ?thesis
        proof (cases "storeBlock restrictions index nodeWayMap (take blockSize rest) st")
          case (Inl e)
          with False nonempty body have "y = Inl e"
            by simp
          then show ?thesis
            by simp
        next
          case (Inr st1)
          with False nonempty body
          have rec: "loop restrictions index nodeWayMap blockSize (drop blockSize rest) st1 = Some y"
            by simp
          from storeBlock_routeFile [OF Inr inv] obtain new1 where
            inv1: "routeFile st1 (rns @ new1)"
            by blast
          from IH [OF rec] inv1
          have "case y of Inl e \<Rightarrow> True
                | Inr st' \<Rightarrow> \<exists>new. routeFile st' ((rns @ new1) @ new)"
            by blast
          then show ?thesis
          proof (cases y)
            case (Inl e)
            then show ?thesis
              by simp
          next
            case (Inr st2)
            with \<open>case y of Inl e \<Rightarrow> True
                | Inr st' \<Rightarrow> \<exists>new. routeFile st' ((rns @ new1) @ new)\<close>
            obtain new2 where "routeFile st2 ((rns @ new1) @ new2)"
              by auto
            then have "routeFile st2 (rns @ (new1 @ new2))"
              by simp
            then have "\<exists>new. routeFile st2 (rns @ new)"
              by (rule exI)
            with Inr show ?thesis
              by simp
          qed
        qed
      qed
    qed
  qed
qed


subsection \<open>A writer in error stays in error\<close>

lemma storeNodes_error:
  "storeNodes restrictions waysMap isJ block st = Inr st' \<Longrightarrow> wHasError (writer st) \<Longrightarrow>
   wHasError (writer st')"
proof (induction block arbitrary: st)
  case Nil
  then show ?case
    by simp
next
  case (Cons node block)
  from Cons.prems(2) have "RouteNode_Write (writer st) rn \<noteq> (True, w)" for rn w
    by (simp add: RouteNode_Write_def putEntry_error)
  with Cons.prems(1) show ?case
    by (auto split: sum.splits prod.splits bool.splits)
qed

lemma storeBlock_error:
  "storeBlock restrictions index nodeWayMap block st = Inr st' \<Longrightarrow> wHasError (writer st) \<Longrightarrow>
   wHasError (writer st')"
  by (auto simp: storeBlock_def split: prod.splits bool.splits dest!: storeNodes_error)

lemma writeBlocks_error:
  "writeBlocks restrictions index nodeWayMap blockSize rest st = Some y \<Longrightarrow>
   wHasError (writer st) \<longrightarrow> (case y of Inl e \<Rightarrow> True | Inr st' \<Rightarrow> wHasError (writer st'))"
proof (erule writeBlocks.raw_induct [rotated], goal_cases)
  case (1 loop restrictions index nodeWayMap blockSize rest st y)
  note IH = "1"(1) and body = "1"(2)
  show ?case
  proof
    assume err: "wHasError (writer st)"
    show "case y of Inl e \<Rightarrow> True | Inr st' \<Rightarrow> wHasError (writer st')"
    proof (cases "rest = []")
      case True
      with body err show ?thesis
        by auto
    next
      case False
      show ?thesis
      proof (cases "blockWayIds (take blockSize rest) = []")
        case True
        with False body have "loop restrictions index nodeWayMap blockSize (drop blockSize rest) st = Some y"
          by simp
        from IH [OF this] err show ?thesis
          by blast
      next
        case nonempty: False
        show ?thesis
        proof (cases "storeBlock restrictions index nodeWayMap (take blockSize rest) st")
          case (Inl e)
          with False nonempty body show ?thesis
            by auto
        next
          case (Inr st1)
          with False nonempty body
          have rec: "loop restrictions index nodeWayMap blockSize (drop blockSize rest) st1 = Some y"
            by simp
          from storeBlock_error [OF Inr err] IH [OF rec] show ?thesis
            by blast
        qed
      qed
    qed
  qed
qed

subsection \<open>The header\<close>

lemma header_unat:
  fixes h :: "32 word"
  assumes "h = of_nat n" and "n < 2 ^ 32"
  shows "unat h = n"
  using assms by (simp add: of_nat_inverse)

lemma finishFile_header:
  assumes "finishFile index st0 = Inr st" and "routeFile st0 rns"
  shows "wcontent (writer st) = Count (of_nat (length rns)) # map Node rns
       \<and> writtenRouteNodeCount st = of_nat (length rns)"
proof -
  from assms(1) have st: "st = st0\<lparr>writer := Write_uint32 (Writer_SetPos (writer st0) 0) (writtenRouteNodeCount st0)\<rparr>"
    by (auto simp: finishFile_def split: if_splits)
  from assms(2) show ?thesis
    unfolding st by (simp add: routeFile_def Write_uint32_def Writer_SetPos_def putEntry_def)
qed

lemma finishFile_no_error:
  assumes "finishFile index st0 = Inr st"
  shows "\<not> wHasError (writer st0)"
proof
  assume "wHasError (writer st0)"
  then have "\<not> Writer_Close (Write_uint32 (Writer_SetPos (writer st0) 0) (writtenRouteNodeCount st0))"
    by (simp add: Writer_Close_def Write_uint32_def Writer_SetPos_def putEntry_error)
  with assms show False
    by (simp add: finishFile_def split: if_splits)
qed

text \<open>
  Claim C7. On a run of the build phase that succeeds, on a newly created file: the
  first thing written is the \<^verbatim>\<open>uint32\<close> 0, so that the file is \<open>[Count 0]\<close> before the
  block loop; when the loop ends in \<open>st0\<close> the file is that placeholder followed by the
  records \<open>rns\<close>; and in the final state the value at offset 0 is the number of these
  records as a \<^verbatim>\<open>uint32\<close> (equal to it as a number below \<open>2^32\<close>), followed by the
  same records.
\<close>

theorem header_count:
  assumes "writeRouteNodes restrictions index nodeWayMap blockSize sc (openedWriter capacity)
             = Some (Inr st)"
  shows "wcontent (writer (startState sc (openedWriter capacity))) = [Count 0]
       \<and> (\<exists>st0 rns.
            writeBlocks restrictions index nodeWayMap blockSize nodeWayMap
              (startState sc (openedWriter capacity)) = Some (Inr st0)
            \<and> wcontent (writer st0) = Count 0 # map Node rns
            \<and> wcontent (writer st) = Count (of_nat (length rns)) # map Node rns
            \<and> writtenRouteNodeCount st = of_nat (length rns)
            \<and> (length rns < 2 ^ 32 \<longrightarrow> unat (writtenRouteNodeCount st) = length rns))"
proof -
  let ?s = "startState sc (openedWriter capacity)"
  from assms obtain st0 where
    loop: "writeBlocks restrictions index nodeWayMap blockSize nodeWayMap ?s = Some (Inr st0)"
    and fin: "finishFile index st0 = Inr st"
    by (auto simp: writeRouteNodes_def split: option.splits sum.splits)
  have ok0: "\<not> wHasError (writer st0)"
    using fin by (rule finishFile_no_error)
  have ok: "\<not> wHasError (writer ?s)"
    using writeBlocks_error [OF loop] ok0 by auto
  then have cap: "0 < capacity"
    by (auto simp: startState_def openedWriter_def Write_uint32_def putEntry_def split: if_splits)
  then have start: "routeFile ?s []"
    by (simp add: routeFile_def startState_def openedWriter_def Write_uint32_def putEntry_def)
  from cap have 1: "wcontent (writer ?s) = [Count 0]"
    by (simp add: startState_def openedWriter_def Write_uint32_def putEntry_def)
  from writeBlocks_routeFile [OF loop] start obtain rns where r: "routeFile st0 rns"
    by auto
  note h = finishFile_header [OF fin r]
  from r have c0: "wcontent (writer st0) = Count 0 # map Node rns"
    by (simp add: routeFile_def)
  have "length rns < 2 ^ 32 \<longrightarrow> unat (writtenRouteNodeCount st) = length rns"
    using h header_unat by blast
  with loop c0 h 1 show ?thesis
    by blast
qed

lemma S3_run_ok:
  "S3_run = Some (Inr S3_final)"
proof -
  have "case S3_run of Some (Inr st) \<Rightarrow> True | _ \<Rightarrow> False"
    unfolding S3_run_def by code_simp
  then obtain st where s: "S3_run = Some (Inr st)"
    by (auto split: option.splits sum.splits)
  have "projr (the (Some (Inr st) :: (BuildError + 32 BuildState) option)) = st"
    by simp
  then have "S3_final = st"
    unfolding S3_final_def by (subst s)
  with s show ?thesis
    by (simp only:)
qed

theorem header_count_witness:
  "writeRouteNodes Map.empty S3_index S3_nodeWayMap 2 S3_scanner (openedWriter 10)
     = Some (Inr S3_final)
   \<and> wcontent (writer (startState S3_scanner (openedWriter 10))) = [Count 0]
   \<and> (\<exists>rns. wcontent (writer S3_final) = Count (of_nat (length rns)) # map Node rns)
   \<and> hd (wcontent (writer S3_final)) = Count 3
   \<and> length (wcontent (writer S3_final)) = 4"
proof -
  have run: "writeRouteNodes Map.empty S3_index S3_nodeWayMap 2 S3_scanner (openedWriter 10)
     = Some (Inr S3_final)"
    using S3_run_ok by (simp add: S3_run_def)
  have e: "hd (wcontent (writer S3_final)) = Count 3 \<and> length (wcontent (writer S3_final)) = 4"
    unfolding S3_final_def S3_run_def by code_simp
  from header_count [OF run] run e show ?thesis
    by blast
qed


subsection \<open>Blocks and junctions without ways\<close>

lemma blockWayIds_empty: "(blockWayIds block = []) = (\<forall>e \<in> set block. snd e = [])"
proof -
  have "(blockWayIds block = []) = (set (blockWayIds block) = {})"
    by simp
  also have "\<dots> = (\<forall>e \<in> set block. snd e = [])"
    by (auto simp: blockWayIds_def)
  finally show ?thesis .
qed


lemma buildRouteNode_no_ways:
  "buildRouteNode restrictions waysMap isJ (n, []) = Inr \<lparr>rnid = n, ways = [], paths = [], excludes = []\<rparr>"
  by (simp add: buildRouteNode_def turnExcludes_def split: option.splits)

text \<open>With a block size that is not 0 the block loop returns.\<close>

lemma writeBlocks_returns:
  "0 < blockSize \<Longrightarrow> \<exists>y. writeBlocks restrictions index nodeWayMap blockSize rest st = Some y"
proof (induction "length rest" arbitrary: rest st rule: less_induct)
  case less
  show ?case
  proof (cases "rest = []")
    case True
    then show ?thesis
      by (subst writeBlocks.simps) simp
  next
    case False
    with less.prems have "length (drop blockSize rest) < length rest"
      by simp
    from less.hyps [OF this less.prems]
    have rec: "\<exists>y. writeBlocks restrictions index nodeWayMap blockSize (drop blockSize rest) st' = Some y"
      for st'
      by blast
    show ?thesis
    proof (cases "blockWayIds (take blockSize rest) = []")
      case True
      with False rec [of st] show ?thesis
        by (subst writeBlocks.simps) simp
    next
      case nonempty: False
      show ?thesis
      proof (cases "storeBlock restrictions index nodeWayMap (take blockSize rest) st")
        case (Inl e)
        with False nonempty show ?thesis
          by (subst writeBlocks.simps) simp
      next
        case (Inr st1)
        with False nonempty rec [of st1] show ?thesis
          by (subst writeBlocks.simps) simp
      qed
    qed
  qed
qed


text \<open>
  The guard \<^verbatim>\<open>if (wayIds.empty()) continue;\<close>: a block whose junctions all have an empty
  list is skipped, the loop goes on behind it in the same state.
\<close>

lemma writeBlocks_skips_block_without_ways:
  assumes "\<forall>e \<in> set (take blockSize rest). snd e = []"
  shows "writeBlocks restrictions index nodeWayMap blockSize rest st
        = writeBlocks restrictions index nodeWayMap blockSize (drop blockSize rest) st"
proof (cases "rest = []")
  case True
  then show ?thesis
    by simp
next
  case False
  from assms have "blockWayIds (take blockSize rest) = []"
    by (simp add: blockWayIds_empty)
  with False show ?thesis
    by (subst writeBlocks.simps) simp
qed

subsection \<open>The lists of the node-way map\<close>






subsection \<open>The junctions of the records\<close>









section \<open>Properties of Way::Write and Way::Read\<close>

lemma readNodes_tokens:
  "readNodes (length xs)
     \<lparr>toks = concat (map (\<lambda>x. [TNum32 (p x), TNum32 (q x)]) xs) @ rest, inError = False\<rparr> acc
   = (\<lparr>toks = rest, inError = False\<rparr>, acc @ map (\<lambda>x. (p x, q x)) xs)"
  by (induction xs arbitrary: acc) (simp_all add: readNum32_def)

lemma length_fold_update: "length (fold (\<lambda>i xs. xs[i := g i]) js xs) = length xs"
  by (induction js arbitrary: xs) simp_all

lemma nth_fold_update:
  "k < length xs \<Longrightarrow>
   fold (\<lambda>i xs. xs[i := g i]) js xs ! k = (if k \<in> set js then g k else xs ! k)"
  by (induction js arbitrary: xs) (auto simp: nth_list_update)

lemma readIds_tokens:
  fixes f :: "nat \<Rightarrow> 'a::len word"
  assumes "\<forall>i \<in> set js. i < length xs \<and> i < 2 ^ 32"
  shows "readIds (length js) m
     \<lparr>toks = concat (map (\<lambda>i. [TNum32 (of_nat i), TNumId (f i)]) js) @ rest, inError = False\<rparr> xs
   = Inr (\<lparr>toks = rest, inError = False\<rparr>, fold (\<lambda>i xs. xs[i := f i + m]) js xs)"
  using assms
proof (induction js arbitrary: xs)
  case Nil
  show ?case
    by simp
next
  case (Cons j js)
  from Cons.prems have j: "j < length xs" and j32: "j < 2 ^ 32"
    and rest: "\<forall>i \<in> set js. i < length (xs[j := f j + m]) \<and> i < 2 ^ 32"
    by simp_all
  have u: "unat (word_of_nat j :: 32 word) = j"
    using j32 by (simp add: of_nat_inverse)
  show ?case
    using Cons.IH [OF rest] j by (simp add: readNum32_def readNumId_def u)
qed

lemma concat_map_if:
  "concat (map (\<lambda>i. if P i then f i else []) xs) = concat (map f (filter P xs))"
  by (induction xs) simp_all

lemma countIds_count:
  "fst (countIds xs (c, m)) = c + of_nat (length (filter (\<lambda>x. x \<noteq> 0) xs))"
  by (induction xs arbitrary: c m) simp_all

lemma length_filter_index:
  "length (filter (\<lambda>i. P (xs ! i)) [0..<length xs]) = length (filter P xs)"
proof -
  have "filter P xs = filter P (map (\<lambda>i. xs ! i) [0..<length xs])"
    by (simp add: map_nth)
  also have "\<dots> = map (\<lambda>i. xs ! i) (filter (\<lambda>i. P (xs ! i)) [0..<length xs])"
    by (simp add: filter_map comp_def)
  finally show ?thesis
    by simp
qed

lemma length_resize0: "length (resize0 ys n) = n"
  by (simp add: resize0_def)

lemma nth_resize0: "k < n \<Longrightarrow> resize0 ys n ! k = (if k < length ys then ys ! k else 0)"
  by (simp add: resize0_def nth_append)

text \<open>
  What the id section leaves in \<^verbatim>\<open>ids\<close> when the object held \<open>ys\<close> before: the id
  written where there is one, and elsewhere what \<^verbatim>\<open>resize\<close> left there.
\<close>

lemma readIdSection_tokens:
  fixes xs :: "'a::len word list"
  assumes len: "length xs < 2 ^ 32" and cm: "countIds xs (0, m0) = (c, m)"
  shows "readIdSection
     \<lparr>toks = [TNum32 c]
        @ (if c > 0 then
             TNumId m #
             concat (map (\<lambda>i. if xs ! i \<noteq> 0 then [TNum32 (of_nat i), TNumId (xs ! i - m)] else [])
               [0..<length xs])
           else [])
        @ rest,
      inError = False\<rparr> (length xs) ys
   = Inr (\<lparr>toks = rest, inError = False\<rparr>,
          map (\<lambda>i. if xs ! i \<noteq> 0 then xs ! i else resize0 ys (length xs) ! i) [0..<length xs])"
proof -
  let ?js = "filter (\<lambda>i. xs ! i \<noteq> 0) [0..<length xs]"
  let ?r = "resize0 ys (length xs)"
  let ?res = "map (\<lambda>i. if xs ! i \<noteq> 0 then xs ! i else ?r ! i) [0..<length xs]"
  have k: "length ?js = length (filter (\<lambda>x. x \<noteq> 0) xs)"
    by (rule length_filter_index)
  have k32: "length ?js < 2 ^ 32"
    using len k length_filter_le [of "\<lambda>x. x \<noteq> 0" xs] by linarith
  from countIds_count [of xs 0 m0] cm k have c: "c = of_nat (length ?js)"
    by simp
  then have uc: "unat c = length ?js"
    using k32 by (simp add: of_nat_inverse)
  show ?thesis
  proof (cases "c > 0")
    case True
    have b: "\<forall>i \<in> set ?js. i < length ?r \<and> i < 2 ^ 32"
      using len by (auto simp: length_resize0)
    have res: "fold (\<lambda>i zs. zs[i := xs ! i]) ?js ?r = ?res"
    proof (rule nth_equalityI)
      show "length (fold (\<lambda>i zs. zs[i := xs ! i]) ?js ?r) = length ?res"
        by (simp add: length_fold_update length_resize0)
    next
      fix k
      assume "k < length (fold (\<lambda>i zs. zs[i := xs ! i]) ?js ?r)"
      then have kl: "k < length xs"
        by (simp add: length_fold_update length_resize0)
      then have "k < length ?r"
        by (simp add: length_resize0)
      from nth_fold_update [OF this, of "\<lambda>i. xs ! i" ?js] kl
      show "fold (\<lambda>i zs. zs[i := xs ! i]) ?js ?r ! k = ?res ! k"
        by auto
    qed
    from True show ?thesis
      by (simp add: readIdSection_def readNum32_def readNumId_def concat_map_if uc
          readIds_tokens [OF b] res)
  next
    case False
    then have c0: "c = 0"
      by (simp add: word_gt_0)
    with uc have "?js = []"
      by simp
    then have z: "\<forall>i < length xs. xs ! i = 0"
      by (auto simp: filter_empty_conv)
    have "?r = ?res"
    proof (rule nth_equalityI)
      show "length ?r = length ?res"
        by (simp add: length_resize0)
    next
      fix k
      assume "k < length ?r"
      then have "k < length xs"
        by (simp add: length_resize0)
      with z show "?r ! k = ?res ! k"
        by simp
    qed
    with c0 show ?thesis
      by (simp add: readIdSection_def readNum32_def)
  qed
qed

text \<open>
  The merged vector is the vector written when the object held 0 wherever the way
  written has no id.
\<close>

lemma merged_ids:
  fixes xs :: "'a::len word list"
  assumes "\<forall>i < length xs. i < length ys \<and> xs ! i = 0 \<longrightarrow> ys ! i = 0"
  shows "map (\<lambda>i. if xs ! i \<noteq> 0 then xs ! i else resize0 ys (length xs) ! i) [0..<length xs] = xs"
proof (rule nth_equalityI)
  show "length (map (\<lambda>i. if xs ! i \<noteq> 0 then xs ! i else resize0 ys (length xs) ! i) [0..<length xs])
      = length xs"
    by simp
next
  fix k
  assume "k < length (map (\<lambda>i. if xs ! i \<noteq> 0 then xs ! i else resize0 ys (length xs) ! i)
      [0..<length xs])"
  then have kl: "k < length xs"
    by simp
  with assms have "xs ! k = 0 \<Longrightarrow> k < length ys \<Longrightarrow> ys ! k = 0"
    by blast
  with kl show "map (\<lambda>i. if xs ! i \<noteq> 0 then xs ! i else resize0 ys (length xs) ! i)
      [0..<length xs] ! k = xs ! k"
    by (auto simp: nth_resize0)
qed

lemma wayTokens_sections:
  assumes "countIds (ids w) (0, minId0) = (c, m)"
  shows "wayTokens cf minId0 w =
     TAttr (attributes w) # TNum32 (of_nat (length (dnodes w)))
     # TFixed32 (toUint32 ((minOf (map fst (dnodes w)) + 90) * cf))
     # TFixed32 (toUint32 ((minOf (map snd (dnodes w)) + 180) * cf))
     # concat (map (\<lambda>x. [TNum32 (toUint32 ((fst x - minOf (map fst (dnodes w))) * cf)),
                           TNum32 (toUint32 ((snd x - minOf (map snd (dnodes w))) * cf))])
          (dnodes w))
     @ ([TNum32 c]
        @ (if c > 0 then
             TNumId m #
             concat (map (\<lambda>i. if ids w ! i \<noteq> 0
                                then [TNum32 (of_nat i), TNumId (ids w ! i - m)] else [])
               [0..<length (ids w)])
           else [])
        @ [])"
  using assms by (simp add: wayTokens_def Let_def case_prod_unfold cong: if_cong)

text \<open>
  \<^verbatim>\<open>Way::Read\<close> on the values of \<^verbatim>\<open>Way::Write\<close>, into any object \<open>w0\<close>: it succeeds,
  takes exactly these values, and leaves in \<^verbatim>\<open>ids\<close> the ids written, with the old
  entries of the object showing through where the way written has no id.
\<close>

lemma Way_Read_tokens:
  fixes w :: "('a::len, 'x) WayData"
  assumes len: "length (ids w) = length (dnodes w)" and n32: "length (dnodes w) < 2 ^ 32"
  shows "\<exists>w'. Way_Read cf \<lparr>toks = wayTokens cf minId0 w @ rest, inError = False\<rparr> w0
              = Inr (True, \<lparr>toks = rest, inError = False\<rparr>, w')
            \<and> ids w' = map (\<lambda>i. if ids w ! i \<noteq> 0 then ids w ! i
                                  else resize0 (ids w0) (length (ids w)) ! i) [0..<length (ids w)]
            \<and> attributes w' = attributes w
            \<and> length (dnodes w') = length (dnodes w)"
proof -
  obtain c m where cm: "countIds (ids w) (0, minId0) = (c, m)"
    by (cases "countIds (ids w) (0, minId0)")
  let ?n = "length (dnodes w)"
  let ?A = "toUint32 ((minOf (map fst (dnodes w)) + 90) * cf)"
  let ?B = "toUint32 ((minOf (map snd (dnodes w)) + 180) * cf)"
  let ?p = "\<lambda>x :: real \<times> real. toUint32 ((fst x - minOf (map fst (dnodes w))) * cf)"
  let ?q = "\<lambda>x :: real \<times> real. toUint32 ((snd x - minOf (map snd (dnodes w))) * cf)"
  let ?NT = "concat (map (\<lambda>x. [TNum32 (?p x), TNum32 (?q x)]) (dnodes w))
               :: ('a word, 'x) Token list"
  let ?IT = "[TNum32 c]
        @ (if c > 0 then
             TNumId m #
             concat (map (\<lambda>i. if ids w ! i \<noteq> 0
                                then [TNum32 (of_nat i), TNumId (ids w ! i - m)] else [])
               [0..<length (ids w)])
           else [])
        @ rest"
  have T: "wayTokens cf minId0 w @ rest =
      TAttr (attributes w) # TNum32 (of_nat ?n) # TFixed32 ?A # TFixed32 ?B # ?NT @ ?IT"
    by (simp add: wayTokens_sections [OF cm])
  have un: "unat (word_of_nat ?n :: 32 word) = ?n"
    using n32 by (simp add: of_nat_inverse)
  have ra: "readAttr \<lparr>toks = wayTokens cf minId0 w @ rest, inError = False\<rparr>
      = (Some (attributes w),
         \<lparr>toks = TNum32 (of_nat ?n) # TFixed32 ?A # TFixed32 ?B # ?NT @ ?IT, inError = False\<rparr>)"
    unfolding T by (simp add: readAttr_def)
  have rn: "readNum32
        \<lparr>toks = TNum32 (of_nat ?n) # TFixed32 ?A # TFixed32 ?B # ?NT @ ?IT, inError = False\<rparr>
      = (of_nat ?n, \<lparr>toks = TFixed32 ?A # TFixed32 ?B # ?NT @ ?IT, inError = False\<rparr>)"
    by (simp add: readNum32_def)
  have rs: "readNodeSection cf \<lparr>toks = TFixed32 ?A # TFixed32 ?B # ?NT @ ?IT, inError = False\<rparr> ?n
      = (\<lparr>toks = ?IT, inError = False\<rparr>,
         map (\<lambda>(latValue, lonValue).
                 (real (unat (?A + latValue)) / cf - 90, real (unat (?B + lonValue)) / cf - 180))
           (map (\<lambda>x. (?p x, ?q x)) (dnodes w)))"
    using readNodes_tokens [of "dnodes w" ?p ?q ?IT "[]"]
    by (simp add: readNodeSection_def readFixed32_def)
  have ri: "readIdSection \<lparr>toks = ?IT, inError = False\<rparr> ?n (ids w0)
      = Inr (\<lparr>toks = rest, inError = False\<rparr>,
             map (\<lambda>i. if ids w ! i \<noteq> 0 then ids w ! i
                       else resize0 (ids w0) (length (ids w)) ! i) [0..<length (ids w)])"
    using readIdSection_tokens [of "ids w" minId0 c m rest "ids w0"] n32 cm len by simp
  show ?thesis
    by (simp add: Way_Read_def ra rn un rs ri del: append.simps)
qed

text \<open>
  Claim C10, as the code has it. A way with at least one node, an \<open>ids\<close> vector as long
  as its node list and fewer than \<open>2^32\<close> nodes (the node count and the indices are
  written as \<^verbatim>\<open>uint32_t\<close>) is written without error. \<^verbatim>\<open>Way::Read\<close> on the values
  written and whatever follows them, into an object whose \<open>ids\<close> hold 0 at every
  position where the way written has no id (a newly constructed way is such an object),
  succeeds, takes exactly these values, and yields the same \<open>ids\<close> vector: 0 where it
  was 0, and every other id as written, relative to the least id that is not 0.
\<close>

theorem Way_ids_roundtrip:
  fixes w :: "('a::len, 'x) WayData"
  assumes "dnodes w \<noteq> []" and "length (ids w) = length (dnodes w)"
    and "length (dnodes w) < 2 ^ 32"
  shows "Way_Write cf minId0 w \<lparr>toks = [], inError = False\<rparr>
           = Inr (True, \<lparr>toks = wayTokens cf minId0 w, inError = False\<rparr>)
       \<and> (\<forall>rest w0.
            (\<forall>i < length (ids w). i < length (ids w0) \<and> ids w ! i = 0 \<longrightarrow> ids w0 ! i = 0) \<longrightarrow>
            (\<exists>w'. Way_Read cf \<lparr>toks = wayTokens cf minId0 w @ rest, inError = False\<rparr> w0
                     = Inr (True, \<lparr>toks = rest, inError = False\<rparr>, w')
                 \<and> ids w' = ids w))"
proof -
  have 1: "Way_Write cf minId0 w \<lparr>toks = [], inError = False\<rparr>
           = Inr (True, \<lparr>toks = wayTokens cf minId0 w, inError = False\<rparr>)"
    using assms(1) by (simp add: Way_Write_def emit_def)
  have 2: "\<exists>w'. Way_Read cf \<lparr>toks = wayTokens cf minId0 w @ rest, inError = False\<rparr> w0
                     = Inr (True, \<lparr>toks = rest, inError = False\<rparr>, w')
                 \<and> ids w' = ids w"
    if h: "\<forall>i < length (ids w). i < length (ids w0) \<and> ids w ! i = 0 \<longrightarrow> ids w0 ! i = 0"
    for rest and w0 :: "('a, 'x) WayData"
    using Way_Read_tokens [OF assms(2) assms(3), of cf minId0 rest w0] merged_ids [OF h]
    by auto
  from 1 2 show ?thesis
    by blast
qed

theorem Way_ids_roundtrip_witness:
  "dnodes exWayData \<noteq> [] \<and> length (ids exWayData) = length (dnodes exWayData)
   \<and> length (dnodes exWayData) < 2 ^ 32
   \<and> ids exWayData = [0, 12, 0, 9]
   \<and> Way_Write 10000000 0 exWayData \<lparr>toks = [], inError = False\<rparr>
       = Inr (True, \<lparr>toks = wayTokens 10000000 0 exWayData, inError = False\<rparr>)
   \<and> (\<exists>w'. Way_Read 10000000 \<lparr>toks = wayTokens 10000000 0 exWayData @ [], inError = False\<rparr>
              \<lparr>attributes = 0, dnodes = [(0, 0)], ids = [0, 77]\<rparr>
            = Inr (True, \<lparr>toks = [], inError = False\<rparr>, w')
          \<and> ids w' = [0, 12, 0, 9])"
proof -
  have h1: "dnodes exWayData \<noteq> []"
    and h2: "length (ids exWayData) = length (dnodes exWayData)"
    and h3: "length (dnodes exWayData) < 2 ^ 32"
    by (simp_all add: exWayData_def)
  have i: "ids exWayData = [0, 12, 0, 9]"
    by (simp add: exWayData_def)
  have f: "\<forall>i < length (ids exWayData).
      i < length (ids \<lparr>attributes = 0 :: nat, dnodes = [(0, 0)], ids = [0, 77 :: 32 word]\<rparr>)
      \<and> ids exWayData ! i = 0
      \<longrightarrow> ids \<lparr>attributes = 0 :: nat, dnodes = [(0, 0)], ids = [0, 77 :: 32 word]\<rparr> ! i = 0"
  proof (intro allI impI)
    fix k
    assume "k < length (ids exWayData)"
      and a: "k < length (ids \<lparr>attributes = 0 :: nat, dnodes = [(0, 0)], ids = [0, 77 :: 32 word]\<rparr>)
        \<and> ids exWayData ! k = 0"
    then have "k < 2"
      by simp
    then have "k = 0 \<or> k = 1"
      by arith
    with a show "ids \<lparr>attributes = 0 :: nat, dnodes = [(0, 0)], ids = [0, 77 :: 32 word]\<rparr> ! k = 0"
      by (auto simp: i)
  qed
  from Way_ids_roundtrip [OF h1 h2 h3, of 10000000 0] f
  have "Way_Write 10000000 0 exWayData \<lparr>toks = [], inError = False\<rparr>
       = Inr (True, \<lparr>toks = wayTokens 10000000 0 exWayData, inError = False\<rparr>)"
    and "\<exists>w'. Way_Read 10000000 \<lparr>toks = wayTokens 10000000 0 exWayData @ [], inError = False\<rparr>
              \<lparr>attributes = 0, dnodes = [(0, 0)], ids = [0, 77]\<rparr>
            = Inr (True, \<lparr>toks = [], inError = False\<rparr>, w')
          \<and> ids w' = ids exWayData"
    by blast+
  with h1 h2 h3 i show ?thesis
    by simp
qed

text \<open>
  Claim C10 as stated fails when the object read into is not new: \<^verbatim>\<open>ids.resize\<close> keeps
  what the vector holds, and the loop assigns only the ids that were written. The way
  \<open>staleSrc\<close> has one node without id; read into the object \<open>staleDst\<close>, which holds the
  id 5 for its node, the result has \<open>ids = [5]\<close>, not \<open>[0]\<close>.
\<close>

theorem Way_Read_stale_counterexample:
  "dnodes staleSrc \<noteq> [] \<and> length (ids staleSrc) = length (dnodes staleSrc)
   \<and> ids staleSrc = [0]
   \<and> Way_Write 10000000 0 staleSrc \<lparr>toks = [], inError = False\<rparr>
       = Inr (True, \<lparr>toks = wayTokens 10000000 0 staleSrc, inError = False\<rparr>)
   \<and> map_sum id (\<lambda>r. (fst r, ids (snd (snd r))))
        (Way_Read 10000000 \<lparr>toks = wayTokens 10000000 0 staleSrc, inError = False\<rparr> staleDst)
       = Inr (True, [5])"
proof -
  have h1: "dnodes staleSrc \<noteq> []"
    and h2: "length (ids staleSrc) = length (dnodes staleSrc)"
    and h3: "length (dnodes staleSrc) < 2 ^ 32"
    and i: "ids staleSrc = [0]"
    by (simp_all add: staleSrc_def)
  have w: "Way_Write 10000000 0 staleSrc \<lparr>toks = [], inError = False\<rparr>
       = Inr (True, \<lparr>toks = wayTokens 10000000 0 staleSrc, inError = False\<rparr>)"
    using h1 by (simp add: Way_Write_def emit_def)
  from Way_Read_tokens [OF h2 h3, of 10000000 0 "[]" staleDst] obtain w' where
    r: "Way_Read 10000000 \<lparr>toks = wayTokens 10000000 0 staleSrc, inError = False\<rparr> staleDst
          = Inr (True, \<lparr>toks = [], inError = False\<rparr>, w')"
    and m: "ids w' = map (\<lambda>i. if ids staleSrc ! i \<noteq> 0 then ids staleSrc ! i
                              else resize0 (ids staleDst) (length (ids staleSrc)) ! i)
                       [0..<length (ids staleSrc)]"
    by auto
  from m have "ids w' = [5]"
    by (simp add: i staleDst_def resize0_def)
  with r h1 h2 i w show ?thesis
    by simp
qed

end
